theory Spec2Isabelle
  imports Complex_Main
begin

section \<open>Numbers and randomness\<close>

text \<open>
  The program is JavaScript: every number is a double. The development idealises doubles
  as real numbers, so rounding is outside the model; all the properties below are about
  the formulas the code computes and about which branches it takes.

  \<^verbatim>\<open>Math.random()\<close> is an external source of numbers in \<open>[0, 1)\<close>. It is modelled as
  a stream \<open>rnd\<close> together with a cursor that counts the calls made so far: the \<open>k\<close>-th
  call returns \<open>rnd k\<close>.
\<close>

type_synonym rng = "nat \<Rightarrow> real"

definition unit_rng :: "rng \<Rightarrow> bool" where
  "unit_rng rnd \<longleftrightarrow> (\<forall>i. 0 \<le> rnd i \<and> rnd i < 1)"

datatype error =
    TypeError
  | RangeError
  | DuplicateRegistration string
  | NotRegistered string

section \<open>WindLayer (deck.gl layer)\<close>

record wparticle =
  wlon :: real
  wlat :: real

record wind_state =
  wparticles :: "wparticle list"
  wcursor :: nat

text \<open>
  \<^verbatim>\<open>const numParticles = this.props.numParticles || 500\<close>: an absent or zero property
  falls back to 500. \<^verbatim>\<open>new Array(n)\<close> raises a RangeError for a negative length and
  for one above \<open>2^32 - 1\<close>.
\<close>

definition numParticles :: "int option \<Rightarrow> int" where
  "numParticles prop = (case prop of None \<Rightarrow> 500 | Some n \<Rightarrow> if n = 0 then 500 else n)"

fun seedWind :: "rng \<Rightarrow> nat \<Rightarrow> nat \<Rightarrow> wparticle list" where
  "seedWind rnd k 0 = []"
| "seedWind rnd k (Suc n) =
     \<lparr>wlon = rnd k * 360 - 180, wlat = rnd (k + 1) * 180 - 90\<rparr> # seedWind rnd (k + 2) n"

definition initializeState :: "rng \<Rightarrow> nat \<Rightarrow> int option \<Rightarrow> error + wind_state" where
  "initializeState rnd k prop =
     (let n = numParticles prop in
      if n < 0 \<or> n > 4294967295 then Inl RangeError
      else Inr \<lparr>wparticles = seedWind rnd k (nat n), wcursor = k + 2 * nat n\<rparr>)"

text \<open>
  The body of the \<^verbatim>\<open>forEach\<close> callback of \<^verbatim>\<open>updateParticles\<close>: two random
  perturbations, then four independent \<^verbatim>\<open>if\<close> statements, each reading the value the
  previous one left.
\<close>

definition moveWind :: "real \<Rightarrow> real \<Rightarrow> wparticle \<Rightarrow> wparticle" where
  "moveWind r1 r2 p =
     (let lon1 = wlon p + (r1 - 0.5) * 2;
          lat1 = wlat p + (r2 - 0.5) * 2;
          lon2 = (if lon1 > 180 then lon1 - 360 else lon1);
          lon3 = (if lon2 < - 180 then lon2 + 360 else lon2);
          lat2 = (if lat1 > 90 then - 90 else lat1);
          lat3 = (if lat2 < - 90 then 90 else lat2)
      in \<lparr>wlon = lon3, wlat = lat3\<rparr>)"

fun moveAll :: "rng \<Rightarrow> nat \<Rightarrow> wparticle list \<Rightarrow> wparticle list" where
  "moveAll rnd k [] = []"
| "moveAll rnd k (p # ps) = moveWind (rnd k) (rnd (k + 1)) p # moveAll rnd (k + 2) ps"

definition updateParticles :: "rng \<Rightarrow> wind_state \<Rightarrow> wind_state" where
  "updateParticles rnd st =
     \<lparr>wparticles = moveAll rnd (wcursor st) (wparticles st),
      wcursor = wcursor st + 2 * length (wparticles st)\<rparr>"

definition on_globe :: "wparticle \<Rightarrow> bool" where
  "on_globe p \<longleftrightarrow> - 180 \<le> wlon p \<and> wlon p \<le> 180 \<and> - 90 \<le> wlat p \<and> wlat p \<le> 90"

section \<open>The mapping engine\<close>

text \<open>
  Modelled from the spec: the mapping engine (mapbox-gl) is an external collaborator and
  not part of the repository; what is missing is its whole implementation. Section 6 of
  the specification gives its interface (\<^verbatim>\<open>addSource/addLayer/removeLayer/removeSource\<close>,
  \<^verbatim>\<open>getLayer/getSource\<close>, \<^verbatim>\<open>getBounds\<close>, \<^verbatim>\<open>flyTo\<close>, \<^verbatim>\<open>jumpTo\<close>, the
  style-ready signal), section 7 names its failure \<^emph>\<open>DuplicateRegistration\<close>, and the
  glossary says that swapping the basemap style discards every custom source and layer.
  The engine state below holds exactly what the component reads back: the sources by id,
  the layer stack (bottom first), the terrain setting, whether the style is loaded, the
  callbacks waiting for the next style-ready signal, the camera and the visible bounds.
  Adding an id that exists fails with \<open>DuplicateRegistration\<close>; removing an id that does
  not exist, or inserting before a layer that does not exist, fails with
  \<open>NotRegistered\<close>; a failing call leaves the engine unchanged.
\<close>

type_synonym ident = string

datatype geojson = Polygon "(real \<times> real) list"

datatype source_spec = RasterDem | GeoJsonSource geojson | VectorTiles

datatype layer_kind = FillLayer | LineLayer | FillExtrusionLayer | CustomLayer | BaseLayer

record layer =
  lid :: ident
  lkind :: layer_kind
  lsource :: "ident option"

record bbox =
  west :: real
  south :: real
  east :: real
  north :: real

record camera =
  center :: "real \<times> real"
  zoom :: real
  pitch :: real
  bearing :: real

text \<open>
  The closures that \<^verbatim>\<open>whenStyleReady\<close> may hand to \<^verbatim>\<open>map.once("style.load", fn)\<close>:
  the bodies of \<^verbatim>\<open>ensureTerrain\<close>, \<^verbatim>\<open>add3DBuildings\<close> and \<^verbatim>\<open>addHighlightLayer\<close>
  (the last one closed over its \<^verbatim>\<open>geojson\<close> argument).
\<close>

datatype deferred = EnsureTerrainBody | Add3DBuildingsBody | AddHighlightBody geojson

record mapbox =
  sources :: "ident \<rightharpoonup> source_spec"
  layers :: "layer list"
  terrain :: "(ident \<times> real) option"
  styleLoaded :: bool
  onceStyleLoad :: "deferred list"
  cam :: camera
  bounds :: bbox

record style =
  styleSources :: "ident \<rightharpoonup> source_spec"
  styleLayers :: "layer list"

definition getSource :: "mapbox \<Rightarrow> ident \<Rightarrow> bool" where
  "getSource m i \<longleftrightarrow> sources m i \<noteq> None"

definition getLayer :: "mapbox \<Rightarrow> ident \<Rightarrow> bool" where
  "getLayer m i \<longleftrightarrow> i \<in> set (map lid (layers m))"

definition isStyleLoaded :: "mapbox \<Rightarrow> bool" where
  "isStyleLoaded m = styleLoaded m"

definition getBounds :: "mapbox \<Rightarrow> bbox" where
  "getBounds m = bounds m"

definition addSource :: "ident \<Rightarrow> source_spec \<Rightarrow> mapbox \<Rightarrow> error + mapbox" where
  "addSource i src m =
     (if getSource m i then Inl (DuplicateRegistration i)
      else Inr (m\<lparr>sources := (sources m)(i \<mapsto> src)\<rparr>))"

definition removeSource :: "ident \<Rightarrow> mapbox \<Rightarrow> error + mapbox" where
  "removeSource i m =
     (if getSource m i then Inr (m\<lparr>sources := (sources m)(i := None)\<rparr>)
      else Inl (NotRegistered i))"

fun insertBefore :: "ident \<Rightarrow> layer \<Rightarrow> layer list \<Rightarrow> layer list" where
  "insertBefore b l [] = [l]"
| "insertBefore b l (x # xs) = (if lid x = b then l # x # xs else x # insertBefore b l xs)"

definition addLayer :: "layer \<Rightarrow> ident option \<Rightarrow> mapbox \<Rightarrow> error + mapbox" where
  "addLayer l before m =
     (if getLayer m (lid l) then Inl (DuplicateRegistration (lid l))
      else case before of
        None \<Rightarrow> Inr (m\<lparr>layers := layers m @ [l]\<rparr>)
      | Some b \<Rightarrow>
          if getLayer m b then Inr (m\<lparr>layers := insertBefore b l (layers m)\<rparr>)
          else Inl (NotRegistered b))"

definition removeLayer :: "ident \<Rightarrow> mapbox \<Rightarrow> error + mapbox" where
  "removeLayer i m =
     (if getLayer m i then Inr (m\<lparr>layers := filter (\<lambda>l. lid l \<noteq> i) (layers m)\<rparr>)
      else Inl (NotRegistered i))"

definition setTerrain :: "ident \<Rightarrow> real \<Rightarrow> mapbox \<Rightarrow> mapbox" where
  "setTerrain src exaggeration m = m\<lparr>terrain := Some (src, exaggeration)\<rparr>"

definition jumpTo :: "(camera \<Rightarrow> camera) \<Rightarrow> mapbox \<Rightarrow> mapbox" where
  "jumpTo pose m = m\<lparr>cam := pose (cam m)\<rparr>"

text \<open>\<^verbatim>\<open>flyTo\<close> animates the camera; the model records the pose the flight ends in.\<close>

definition flyTo :: "(camera \<Rightarrow> camera) \<Rightarrow> mapbox \<Rightarrow> mapbox" where
  "flyTo pose m = m\<lparr>cam := pose (cam m)\<rparr>"

text \<open>
  Swapping the basemap: the engine drops every source and layer it holds, custom ones
  included, takes the new style's own, forgets the terrain setting, and is not ready
  again until the style-ready signal.
\<close>

definition setStyle :: "style \<Rightarrow> mapbox \<Rightarrow> mapbox" where
  "setStyle sty m =
     m\<lparr>sources := styleSources sty, layers := styleLayers sty, terrain := None,
       styleLoaded := False\<rparr>"

text \<open>Sequencing of fallible engine calls: the first failure ends the sequence.\<close>

definition andThen :: "'e + 'a \<Rightarrow> ('a \<Rightarrow> 'e + 'b) \<Rightarrow> 'e + 'b" where
  "andThen r f = (case r of Inl e \<Rightarrow> Inl e | Inr x \<Rightarrow> f x)"

section \<open>The GlobeMap component (3D-capable version)\<close>

text \<open>
  The version of \<^verbatim>\<open>GlobeMap\<close> with the 2D arrow renderer and the 3D point cloud (second
  document of \<^verbatim>\<open>src/unnamed/part_000\<close>). Its refs and React state are the fields of
  \<open>globe\<close>; a React state setter is modelled as an assignment. What the component takes
  from its surroundings is gathered in \<open>env\<close>: the random stream, the engine's projection
  and terrain queries, and the size of the map container.
\<close>

datatype mode = GlobeMode | FocusMode

record particle =
  lon :: real
  lat :: real
  age :: real

record frame =
  direction_deg :: real
  speed_ms :: "real option"

record flux_data =
  wind_series :: "frame list option"
  net_flux_L :: real
  demand_L :: real

datatype flux_response = FluxFailed | FluxReply flux_data

datatype boundary_response = BoundaryFailed | BoundaryReply "geojson option"

type_synonym segment = "(real \<times> real) \<times> (real \<times> real)"

record canvas =
  width :: real
  height :: real
  strokes :: "segment list"

record marker =
  lngLat :: "real \<times> real"
  onMap :: bool

record three_state =
  points :: "(real \<times> real \<times> real) list option"
  renderersBuilt :: nat

record env =
  random :: rng
  project :: "real \<times> real \<Rightarrow> real \<times> real"
  queryTerrainElevation :: "real \<times> real \<Rightarrow> real option"
  fromLngLat :: "real \<times> real \<Rightarrow> real \<Rightarrow> real \<times> real \<times> real"
  containerRect :: "real \<times> real"

record globe =
  mapRef :: "mapbox option"
  canvasRef :: "canvas option"
  markerRef :: "marker option"
  highlightDataRef :: "geojson option"
  animationRef :: "nat option"
  rotatingRef :: bool
  bearingRef :: real
  modeRef :: mode
  selectedCity :: "string option"
  loading :: bool
  results :: "flux_data option"
  show3D :: bool
  particleArray :: "particle list"
  flowFrameRef :: nat
  windSeriesRef :: "frame list"
  threeStateRef :: three_state
  randomCalls :: nat
  frameRequests :: nat
  drawClosures :: "bool list"
  boundaryFetches :: "string list"

text \<open>
  \<open>randomCalls\<close> counts the calls of \<^verbatim>\<open>Math.random()\<close>, \<open>frameRequests\<close> those of
  \<^verbatim>\<open>requestAnimationFrame\<close> (whose return value is the new count), \<open>boundaryFetches\<close>
  lists the city names sent to \<^verbatim>\<open>/boundary\<close>. \<open>drawClosures\<close> lists the running \<^verbatim>\<open>draw\<close>
  closures, each with the value of \<^verbatim>\<open>show3D\<close> it captured.

  A component function that can throw returns \<open>Inl (e, s)\<close> with the state \<open>s\<close> reached
  when the exception left it, so that a \<^verbatim>\<open>catch\<close> continues from there.
\<close>

type_synonym result = "(error \<times> globe) + globe"

definition onMap_do :: "globe \<Rightarrow> (mapbox \<Rightarrow> error + mapbox) \<Rightarrow> result" where
  "onMap_do s f =
     (case mapRef s of
        None \<Rightarrow> Inl (TypeError, s)
      | Some m \<Rightarrow> (case f m of Inl e \<Rightarrow> Inl (e, s) | Inr m' \<Rightarrow> Inr (s\<lparr>mapRef := Some m'\<rparr>)))"

definition requestAnimationFrame :: "globe \<Rightarrow> globe" where
  "requestAnimationFrame s = s\<lparr>frameRequests := frameRequests s + 1\<rparr>"

subsection \<open>Orbit\<close>

definition animateOrbit :: "globe \<Rightarrow> globe" where
  "animateOrbit s =
     (let s1 =
        (case mapRef s of
           Some m \<Rightarrow>
             if rotatingRef s \<and> modeRef s = GlobeMode then
               let b = bearingRef s + 0.05 in
               s\<lparr>bearingRef := b,
                 mapRef := Some (jumpTo (\<lambda>c. c\<lparr>center := (0, 20), zoom := 1.5, bearing := b\<rparr>) m)\<rparr>
             else s
         | None \<Rightarrow> s);
        s2 = requestAnimationFrame s1
      in s2\<lparr>animationRef := Some (frameRequests s2)\<rparr>)"

subsection \<open>Terrain, buildings, highlight\<close>

text \<open>\<^verbatim>\<open>map.getLayer(id) && map.removeLayer(id)\<close> and its analogue for sources.\<close>

definition removeLayerIfPresent :: "ident \<Rightarrow> mapbox \<Rightarrow> error + mapbox" where
  "removeLayerIfPresent i m = (if getLayer m i then removeLayer i m else Inr m)"

definition removeSourceIfPresent :: "ident \<Rightarrow> mapbox \<Rightarrow> error + mapbox" where
  "removeSourceIfPresent i m = (if getSource m i then removeSource i m else Inr m)"

definition buildingsLayer :: layer where
  "buildingsLayer = \<lparr>lid = ''3d-buildings'', lkind = FillExtrusionLayer, lsource = Some ''composite''\<rparr>"

definition highlightFill :: layer where
  "highlightFill = \<lparr>lid = ''highlight-fill'', lkind = FillLayer, lsource = Some ''highlight''\<rparr>"

definition highlightOutline :: layer where
  "highlightOutline = \<lparr>lid = ''highlight-outline'', lkind = LineLayer, lsource = Some ''highlight''\<rparr>"

definition particlesLayer :: layer where
  "particlesLayer = \<lparr>lid = ''flux-3d-particles'', lkind = CustomLayer, lsource = None\<rparr>"

fun runDeferred :: "deferred \<Rightarrow> mapbox \<Rightarrow> error + mapbox" where
  "runDeferred EnsureTerrainBody m =
     andThen (if \<not> getSource m ''mapbox-dem'' then addSource ''mapbox-dem'' RasterDem m else Inr m)
       (\<lambda>m1. Inr (setTerrain ''mapbox-dem'' 1.2 m1))"
| "runDeferred Add3DBuildingsBody m =
     (if getLayer m ''3d-buildings'' \<or> \<not> getSource m ''composite'' then Inr m
      else addLayer buildingsLayer (Some ''waterway-label'') m)"
| "runDeferred (AddHighlightBody g) m =
     andThen (removeLayerIfPresent ''highlight-fill'' m) (\<lambda>m1.
     andThen (removeLayerIfPresent ''highlight-outline'' m1) (\<lambda>m2.
     andThen (removeSourceIfPresent ''highlight'' m2) (\<lambda>m3.
     andThen (addSource ''highlight'' (GeoJsonSource g) m3) (\<lambda>m4.
     andThen (addLayer highlightFill None m4) (\<lambda>m5.
     addLayer highlightOutline None m5)))))"

definition whenStyleReady :: "mapbox option \<Rightarrow> deferred \<Rightarrow> error + mapbox option" where
  "whenStyleReady mo fn =
     (case mo of
        None \<Rightarrow> Inr None
      | Some m \<Rightarrow>
          if isStyleLoaded m then andThen (runDeferred fn m) (\<lambda>m1. Inr (Some m1))
          else Inr (Some (m\<lparr>onceStyleLoad := onceStyleLoad m @ [fn]\<rparr>)))"

definition deferOrRun :: "deferred \<Rightarrow> globe \<Rightarrow> result" where
  "deferOrRun fn s =
     (case whenStyleReady (mapRef s) fn of
        Inl e \<Rightarrow> Inl (e, s)
      | Inr mo \<Rightarrow> Inr (s\<lparr>mapRef := mo\<rparr>))"

definition ensureTerrain :: "globe \<Rightarrow> result" where
  "ensureTerrain s = (if mapRef s = None then Inr s else deferOrRun EnsureTerrainBody s)"

definition add3DBuildings :: "globe \<Rightarrow> result" where
  "add3DBuildings s = (if mapRef s = None then Inr s else deferOrRun Add3DBuildingsBody s)"

definition addHighlightLayer :: "geojson option \<Rightarrow> globe \<Rightarrow> result" where
  "addHighlightLayer geojson s =
     (case geojson of
        None \<Rightarrow> Inr s
      | Some g \<Rightarrow> if mapRef s = None then Inr s else deferOrRun (AddHighlightBody g) s)"

text \<open>
  \<^verbatim>\<open>fetchAndDrawBoundary\<close> awaits the backend; the reply is a parameter. Everything
  after the request is inside \<^verbatim>\<open>try\<close>, and the \<^verbatim>\<open>catch\<close> only logs.
\<close>

definition fetchAndDrawBoundary :: "string \<Rightarrow> boundary_response \<Rightarrow> globe \<Rightarrow> globe" where
  "fetchAndDrawBoundary name resp s =
     (let s1 = s\<lparr>boundaryFetches := boundaryFetches s @ [name]\<rparr> in
      case resp of
        BoundaryFailed \<Rightarrow> s1
      | BoundaryReply None \<Rightarrow> s1
      | BoundaryReply (Some g) \<Rightarrow>
          (case addHighlightLayer (Some g) (s1\<lparr>highlightDataRef := Some g\<rparr>) of
             Inl (e, s2) \<Rightarrow> s2
           | Inr s2 \<Rightarrow> s2))"

definition restoreHighlight :: "globe \<Rightarrow> result" where
  "restoreHighlight s =
     (if highlightDataRef s \<noteq> None then addHighlightLayer (highlightDataRef s) s else Inr s)"

text \<open>
  The geocoder's \<^verbatim>\<open>result\<close> listener: the selected place's name and coordinates come
  with the event, the boundary reply from the backend. The listener is registered in
  the map's \<^verbatim>\<open>load\<close> callback and uses that map.
\<close>

definition geocoderResult :: "string \<Rightarrow> real \<times> real \<Rightarrow> boundary_response \<Rightarrow> globe \<Rightarrow> result" where
  "geocoderResult name coords resp s =
     (let s1 = s\<lparr>selectedCity := Some name, rotatingRef := False\<rparr>;
          s2 = s1\<lparr>markerRef := Some \<lparr>lngLat = coords, onMap = True\<rparr>\<rparr>;
          s3 = fetchAndDrawBoundary name resp s2
      in onMap_do s3 (\<lambda>m.
           Inr (flyTo (\<lambda>c. c\<lparr>center := coords, zoom := 11, pitch := 60, bearing := 30\<rparr>) m)))"

subsection \<open>2D arrows\<close>

text \<open>
  JavaScript's \<^verbatim>\<open>%\<close> on numbers: the quotient is truncated towards zero, so the
  result has the sign of the dividend.
\<close>

definition jsrem :: "real \<Rightarrow> real \<Rightarrow> real" where
  "jsrem x y = x - y * of_int (if x / y < 0 then \<lceil>x / y\<rceil> else \<lfloor>x / y\<rfloor>)"

definition spawnLon :: "bbox \<Rightarrow> real \<Rightarrow> real" where
  "spawnLon b r = west b + r * (east b - west b)"

definition spawnLat :: "bbox \<Rightarrow> real \<Rightarrow> real" where
  "spawnLat b r = south b + r * (north b - south b)"

fun seedParticles :: "rng \<Rightarrow> bbox \<Rightarrow> nat \<Rightarrow> nat \<Rightarrow> particle list" where
  "seedParticles rnd b k 0 = []"
| "seedParticles rnd b k (Suc n) =
     \<lparr>lon = spawnLon b (rnd k), lat = spawnLat b (rnd (k + 1)), age = rnd (k + 2) * 200\<rparr>
       # seedParticles rnd b (k + 3) n"

definition clearRect :: "canvas \<Rightarrow> canvas" where
  "clearRect c = c\<lparr>strokes := []\<rparr>"

text \<open>
  The body of the \<^verbatim>\<open>forEach\<close> callback of \<^verbatim>\<open>draw\<close> for one particle: the segment
  it strokes, the particle it leaves, and the random-call count. The arguments are the
  values \<^verbatim>\<open>draw\<close> computed before the loop.
\<close>

definition drawParticle ::
  "env \<Rightarrow> mapbox \<Rightarrow> real \<Rightarrow> real \<Rightarrow> real \<Rightarrow> nat \<Rightarrow> particle \<Rightarrow> segment \<times> particle \<times> nat" where
  "drawParticle e m heading baseLen driftStep k p =
     (let pos = project e (lon p, lat p);
          dx = baseLen * sin heading;
          dy = baseLen * cos heading;
          seg = ((fst pos, snd pos), (fst pos + dx, snd pos - dy));
          lon1 = lon p + driftStep * sin heading;
          lat1 = lat p + driftStep * cos heading;
          age1 = age p + 1
      in if age1 > 300 then
           let b = getBounds m in
           (seg, \<lparr>lon = spawnLon b (random e k), lat = spawnLat b (random e (k + 1)), age = 0\<rparr>,
            k + 2)
         else (seg, \<lparr>lon = lon1, lat = lat1, age = age1\<rparr>, k))"

fun drawParticles ::
  "env \<Rightarrow> mapbox \<Rightarrow> real \<Rightarrow> real \<Rightarrow> real \<Rightarrow> nat \<Rightarrow> particle list
     \<Rightarrow> segment list \<times> particle list \<times> nat" where
  "drawParticles e m heading baseLen driftStep k [] = ([], [], k)"
| "drawParticles e m heading baseLen driftStep k (p # ps) =
     (case drawParticle e m heading baseLen driftStep k p of (seg, p', k1) \<Rightarrow>
        (case drawParticles e m heading baseLen driftStep k1 ps of (segs, ps', k2) \<Rightarrow>
           (seg # segs, p' # ps', k2)))"

definition frameHeading :: "frame \<Rightarrow> real" where
  "frameHeading f = jsrem (direction_deg f + 180) 360 * (pi / 180)"

definition frameSpeed :: "frame \<Rightarrow> real" where
  "frameSpeed f = (case speed_ms f of None \<Rightarrow> 0 | Some v \<Rightarrow> v)"

definition baseLen :: "real \<Rightarrow> real" where
  "baseLen speed = min 18 (speed * 0.5)"

definition driftStep :: "real \<Rightarrow> real" where
  "driftStep speed = 0.0015 + min 0.004 (speed * 0.0003)"

text \<open>
  \<^verbatim>\<open>frames[flowFrameRef.current % frames.length]\<close>; \<^verbatim>\<open>draw\<close> reads it only when
  the series is not empty.
\<close>

definition currentFrame :: "globe \<Rightarrow> frame" where
  "currentFrame s = windSeriesRef s ! (flowFrameRef s mod length (windSeriesRef s))"

text \<open>
  One call of the \<^verbatim>\<open>draw\<close> closure, that is, one repaint. \<open>captured3D\<close> is the value
  of \<^verbatim>\<open>show3D\<close> in the render that created the closure. The closure holds the map and
  the canvas it was created with; \<^verbatim>\<open>init2DArrows\<close> creates it only when both exist,
  and nothing in this version unsets them, so the last case is never reached.
\<close>

definition draw :: "bool \<Rightarrow> env \<Rightarrow> globe \<Rightarrow> globe" where
  "draw captured3D e s =
     (case (mapRef s, canvasRef s) of
        (Some m, Some c) \<Rightarrow>
          if captured3D then requestAnimationFrame (s\<lparr>canvasRef := Some (clearRect c)\<rparr>)
          else
            let c1 = clearRect c; frames = windSeriesRef s in
            if frames = [] then requestAnimationFrame (s\<lparr>canvasRef := Some c1\<rparr>)
            else
              let f = currentFrame s;
                  heading = frameHeading f;
                  speed = frameSpeed f
              in case drawParticles e m heading (baseLen speed) (driftStep speed)
                        (randomCalls s) (particleArray s) of
                   (segs, ps, k) \<Rightarrow>
                     requestAnimationFrame
                       (s\<lparr>canvasRef := Some (c1\<lparr>strokes := segs\<rparr>),
                          particleArray := ps,
                          randomCalls := k,
                          flowFrameRef := (flowFrameRef s + 1) mod length frames\<rparr>)
      | _ \<Rightarrow> s)"

definition resizeCanvas :: "env \<Rightarrow> canvas \<Rightarrow> canvas" where
  "resizeCanvas e c = \<lparr>width = fst (containerRect e), height = snd (containerRect e), strokes = []\<rparr>"

definition init2DArrows :: "env \<Rightarrow> globe \<Rightarrow> globe" where
  "init2DArrows e s =
     (case (mapRef s, canvasRef s) of
        (Some m, Some c) \<Rightarrow>
          let N = 200;
              s1 = s\<lparr>canvasRef := Some (resizeCanvas e c),
                     particleArray := seedParticles (random e) (getBounds m) (randomCalls s) N,
                     randomCalls := randomCalls s + 3 * N,
                     drawClosures := drawClosures s @ [show3D s]\<rparr>
          in draw (show3D s) e s1
      | _ \<Rightarrow> s)"

subsection \<open>3D layer\<close>

fun samplePoints :: "env \<Rightarrow> bbox \<Rightarrow> nat \<Rightarrow> nat \<Rightarrow> (real \<times> real \<times> real) list" where
  "samplePoints e b k 0 = []"
| "samplePoints e b k (Suc n) =
     (let lon = spawnLon b (random e k);
          lat = spawnLat b (random e (k + 1));
          alt = (case queryTerrainElevation e (lon, lat) of None \<Rightarrow> 0 | Some h \<Rightarrow> h)
                  + 40 + random e (k + 2) * 80
      in fromLngLat e (lon, lat) alt # samplePoints e b (k + 3) n)"

definition add3DLayer :: "env \<Rightarrow> globe \<Rightarrow> result" where
  "add3DLayer e s =
     (case mapRef s of
        None \<Rightarrow> Inr s
      | Some m \<Rightarrow>
          if getLayer m ''flux-3d-particles'' then Inr s
          else
            let num = 1800;
                s1 = s\<lparr>threeStateRef :=
                         \<lparr>points = Some (samplePoints e (getBounds m) (randomCalls s) num),
                          renderersBuilt = renderersBuilt (threeStateRef s) + 1\<rparr>,
                       randomCalls := randomCalls s + 3 * num\<rparr>
            in onMap_do s1 (addLayer particlesLayer (Some ''waterway-label'')))"

definition remove3DLayer :: "globe \<Rightarrow> result" where
  "remove3DLayer s = onMap_do s (removeLayerIfPresent ''flux-3d-particles'')"

subsection \<open>Style reload, simulation, reset\<close>

definition bind :: "result \<Rightarrow> (globe \<Rightarrow> result) \<Rightarrow> result" where
  "bind r f = (case r of Inl x \<Rightarrow> Inl x | Inr s \<Rightarrow> f s)"

text \<open>
  The listener registered with \<^verbatim>\<open>map.on("style.load", ...)\<close>:
  \<^verbatim>\<open>() => { ensureTerrain(); add3DBuildings(); restoreHighlight(); }\<close>.
\<close>

definition styleLoadHandler :: "globe \<Rightarrow> result" where
  "styleLoadHandler s = bind (bind (ensureTerrain s) add3DBuildings) restoreHighlight"

fun runAllDeferred :: "deferred list \<Rightarrow> mapbox \<Rightarrow> error + mapbox" where
  "runAllDeferred [] m = Inr m"
| "runAllDeferred (fn # fns) m = andThen (runDeferred fn m) (runAllDeferred fns)"

text \<open>
  Modelled from the spec: the engine's style-ready signal, whose dispatch is engine code.
  The style is loaded when the signal fires; the permanent listener runs first, then the
  one-shot listeners that were waiting, each removed as it runs.
\<close>

definition fireStyleLoad :: "globe \<Rightarrow> result" where
  "fireStyleLoad s =
     (case mapRef s of
        None \<Rightarrow> Inr s
      | Some m \<Rightarrow>
          bind (styleLoadHandler (s\<lparr>mapRef := Some (m\<lparr>styleLoaded := True, onceStyleLoad := []\<rparr>)\<rparr>))
            (\<lambda>s1. onMap_do s1 (runAllDeferred (onceStyleLoad m))))"

text \<open>A basemap button: \<^verbatim>\<open>mapRef.current.setStyle(...)\<close>, then the signal.\<close>

definition styleReload :: "style \<Rightarrow> globe \<Rightarrow> result" where
  "styleReload sty s = bind (onMap_do s (\<lambda>m. Inr (setStyle sty m))) fireStyleLoad"

text \<open>\<^verbatim>\<open>!selectedCity\<close>: no city is selected, or the name is the empty string.\<close>

definition noCity :: "globe \<Rightarrow> bool" where
  "noCity s \<longleftrightarrow> selectedCity s = None \<or> selectedCity s = Some []"

text \<open>
  \<^verbatim>\<open>runSimulation\<close> awaits the backend; the reply is a parameter. After the guard,
  everything is inside \<^verbatim>\<open>try\<close>; the \<^verbatim>\<open>catch\<close> only logs and \<^verbatim>\<open>finally\<close> clears
  the loading flag.
\<close>

definition runSimulation :: "env \<Rightarrow> flux_response \<Rightarrow> globe \<Rightarrow> globe" where
  "runSimulation e resp s =
     (if noCity s then s
      else
        let s1 = s\<lparr>loading := True\<rparr> in
        case resp of
          FluxFailed \<Rightarrow> s1\<lparr>loading := False\<rparr>
        | FluxReply d \<Rightarrow>
            let s2 = s1\<lparr>results := Some d,
                       windSeriesRef := (case wind_series d of None \<Rightarrow> [] | Some ws \<Rightarrow> ws)\<rparr>;
                r = (if show3D s2 then bind (remove3DLayer s2) (add3DLayer e)
                     else Inr (init2DArrows e s2))
            in case r of
                 Inl (err, s3) \<Rightarrow> s3\<lparr>loading := False\<rparr>
               | Inr s3 \<Rightarrow> s3\<lparr>loading := False\<rparr>)"

definition resetGlobe :: "globe \<Rightarrow> result" where
  "resetGlobe s =
     bind (onMap_do s (\<lambda>m.
             Inr (flyTo (\<lambda>c. c\<lparr>center := (0, 20), zoom := 1.5, pitch := 0, bearing := 0\<rparr>) m)))
       (\<lambda>s1.
          let s2 = s1\<lparr>markerRef := map_option (\<lambda>mk. mk\<lparr>onMap := False\<rparr>) (markerRef s1)\<rparr> in
          bind (onMap_do s2 (\<lambda>m.
                  andThen (removeLayerIfPresent ''highlight-fill'' m) (\<lambda>m1.
                  andThen (removeLayerIfPresent ''highlight-outline'' m1) (\<lambda>m2.
                  removeSourceIfPresent ''highlight'' m2))))
            (\<lambda>s3. remove3DLayer (s3\<lparr>results := None, selectedCity := None\<rparr>)))"

text \<open>
  \<^verbatim>\<open>resetGlobe\<close> as the older version has it (third document of
  \<^verbatim>\<open>src/unnamed/part_000\<close>), on the fields the two versions share: it removes the
  highlight layers only when the source exists, and it clears the stored feature.
\<close>

definition resetGlobe_alt :: "globe \<Rightarrow> result" where
  "resetGlobe_alt s =
     (let s1 = s\<lparr>selectedCity := None, modeRef := GlobeMode, rotatingRef := True\<rparr> in
      bind (onMap_do s1 (\<lambda>m.
              Inr (flyTo (\<lambda>c. c\<lparr>center := (0, 20), zoom := 1.5, pitch := 0, bearing := 0\<rparr>) m)))
        (\<lambda>s2.
           let s3 = s2\<lparr>markerRef := map_option (\<lambda>mk. mk\<lparr>onMap := False\<rparr>) (markerRef s2)\<rparr> in
           bind (onMap_do s3 (\<lambda>m.
                   if getSource m ''highlight'' then
                     andThen (removeLayerIfPresent ''highlight-fill'' m) (\<lambda>m1.
                     andThen (removeLayerIfPresent ''highlight-outline'' m1) (\<lambda>m2.
                     removeSource ''highlight'' m2))
                   else Inr m))
             (\<lambda>s4. Inr (s4\<lparr>highlightDataRef := None, results := None\<rparr>))))"

text \<open>
  What the three calls of the style-ready listener do to the engine when the style is
  loaded and nothing fails, written on the engine state alone; \<open>h\<close> is the stored
  highlight feature.
\<close>

definition replay :: "geojson option \<Rightarrow> mapbox \<Rightarrow> error + mapbox" where
  "replay h m =
     andThen (runDeferred EnsureTerrainBody m) (\<lambda>m1.
     andThen (runDeferred Add3DBuildingsBody m1) (\<lambda>m2.
     case h of None \<Rightarrow> Inr m2 | Some g \<Rightarrow> runDeferred (AddHighlightBody g) m2))"

text \<open>
  Everything on the listener's list is in place: the terrain source and setting, the
  building layer (unless the style has no \<^verbatim>\<open>composite\<close> source to build it from),
  and, for a stored feature, its source with the fill and outline layers on top.
\<close>

definition attached :: "geojson option \<Rightarrow> mapbox \<Rightarrow> bool" where
  "attached h m \<longleftrightarrow>
     getSource m ''mapbox-dem'' \<and> terrain m = Some (''mapbox-dem'', 1.2) \<and>
     (getLayer m ''3d-buildings'' \<or> \<not> getSource m ''composite'') \<and>
     (case h of
        None \<Rightarrow> True
      | Some g \<Rightarrow>
          sources m ''highlight'' = Some (GeoJsonSource g) \<and>
          layers m = filter (\<lambda>l. lid l \<noteq> ''highlight-fill'' \<and> lid l \<noteq> ''highlight-outline'')
                       (layers m) @ [highlightFill, highlightOutline])"

section \<open>The orbit controller with its resume timer\<close>

text \<open>
  \<^verbatim>\<open>src/frontend/src/components/GlobeMap.jsx\<close> rotates in both modes and resumes after
  a pause through a timer; the third document of \<^verbatim>\<open>src/unnamed/part_000\<close> has the same
  \<^verbatim>\<open>pauseOrbit\<close> with a timer callback that checks the mode. The names of the first
  carry the suffix \<open>_fe\<close>, those of the second \<open>_alt\<close>. Both use the refs below,
  next to which the record holds the platform's pending timers and clock.
\<close>

datatype timer_callback = Resume | ResumeIfGlobe

record orbit =
  mapRef_o :: "mapbox option"
  rotatingRef_o :: bool
  bearingRef_o :: real
  modeRef_o :: mode
  animationRef_o :: "nat option"
  resumeTimerRef_o :: "nat option"
  frameRequests_o :: nat
  timers :: "(nat \<times> nat \<times> timer_callback) list"
  timersCreated :: nat
  now :: nat

definition animateOrbit_fe :: "orbit \<Rightarrow> orbit" where
  "animateOrbit_fe s =
     (let s1 =
        (case mapRef_o s of
           Some m \<Rightarrow>
             if rotatingRef_o s then
               let b = bearingRef_o s + (if modeRef_o s = GlobeMode then 0.05 else 0.2) in
               if modeRef_o s = GlobeMode then
                 s\<lparr>bearingRef_o := b,
                   mapRef_o := Some (jumpTo (\<lambda>c. \<lparr>center = (0, 20), zoom = 1.5, pitch = 0, bearing = b\<rparr>) m)\<rparr>
               else
                 s\<lparr>bearingRef_o := b,
                   mapRef_o := Some (jumpTo (\<lambda>c. \<lparr>center = center c, zoom = zoom c, pitch = pitch c,
                                                 bearing = b\<rparr>) m)\<rparr>
             else s
         | None \<Rightarrow> s);
        n = frameRequests_o s1 + 1
      in s1\<lparr>frameRequests_o := n, animationRef_o := Some n\<rparr>)"

text \<open>
  Modelled from the spec: the platform's timers (\<^verbatim>\<open>setTimeout\<close>, \<^verbatim>\<open>clearTimeout\<close>
  and the firing of a timer) are not repository code; the specification speaks of a
  resume timer with a fixed delay that a later pause restarts. Time is a counter of
  milliseconds, a pending timer is its id, its deadline and its callback, ids are
  handed out from 1 upwards, and a timer fires exactly when its delay has elapsed.
\<close>

definition setTimeout :: "timer_callback \<Rightarrow> nat \<Rightarrow> orbit \<Rightarrow> nat \<times> orbit" where
  "setTimeout cb delay s =
     (let i = timersCreated s + 1
      in (i, s\<lparr>timers := timers s @ [(i, now s + delay, cb)], timersCreated := i\<rparr>))"

definition clearTimeout :: "nat \<Rightarrow> orbit \<Rightarrow> orbit" where
  "clearTimeout i s = s\<lparr>timers := filter (\<lambda>t. fst t \<noteq> i) (timers s)\<rparr>"

text \<open>
  \<^verbatim>\<open>if (resumeTimerRef.current) clearTimeout(resumeTimerRef.current)\<close>: a timer id is
  truthy unless it is 0.
\<close>

definition pauseOrbitWith :: "timer_callback \<Rightarrow> orbit \<Rightarrow> orbit" where
  "pauseOrbitWith cb s =
     (let s1 = s\<lparr>rotatingRef_o := False\<rparr>;
          s2 = (case resumeTimerRef_o s1 of
                  Some i \<Rightarrow> if i \<noteq> 0 then clearTimeout i s1 else s1
                | None \<Rightarrow> s1)
      in case setTimeout cb 5000 s2 of (i, s3) \<Rightarrow> s3\<lparr>resumeTimerRef_o := Some i\<rparr>)"

definition pauseOrbit_fe :: "orbit \<Rightarrow> orbit" where
  "pauseOrbit_fe = pauseOrbitWith Resume"

definition pauseOrbit_alt :: "orbit \<Rightarrow> orbit" where
  "pauseOrbit_alt = pauseOrbitWith ResumeIfGlobe"

fun runTimer :: "timer_callback \<Rightarrow> orbit \<Rightarrow> orbit" where
  "runTimer Resume s = s\<lparr>rotatingRef_o := True\<rparr>"
| "runTimer ResumeIfGlobe s = (if modeRef_o s = GlobeMode then s\<lparr>rotatingRef_o := True\<rparr> else s)"

fun runTimers :: "(nat \<times> nat \<times> timer_callback) list \<Rightarrow> orbit \<Rightarrow> orbit" where
  "runTimers [] s = s"
| "runTimers (t # ts) s = runTimers ts (runTimer (snd (snd t)) s)"

text \<open>\<open>elapse d\<close>: \<open>d\<close> milliseconds pass with no event other than the timers that fall due.\<close>

definition elapse :: "nat \<Rightarrow> orbit \<Rightarrow> orbit" where
  "elapse d s =
     (let t = now s + d;
          due = filter (\<lambda>x. fst (snd x) \<le> t) (timers s);
          rest = filter (\<lambda>x. \<not> fst (snd x) \<le> t) (timers s)
      in runTimers due (s\<lparr>now := t, timers := rest\<rparr>))"

text \<open>
  Every pending timer is the one \<^verbatim>\<open>resumeTimerRef\<close> points to. It holds initially (no
  timer) and both \<^verbatim>\<open>pauseOrbit\<close> and the passing of time keep it.
\<close>

definition timers_tracked :: "orbit \<Rightarrow> bool" where
  "timers_tracked s \<longleftrightarrow> (\<forall>t \<in> set (timers s). fst t \<noteq> 0 \<and> resumeTimerRef_o s = Some (fst t))"

section \<open>Notions of the specification\<close>

text \<open>The mathematical \<open>x mod 360\<close> on real numbers, with result in \<open>[0, 360)\<close>.\<close>

definition mod360 :: "real \<Rightarrow> real" where
  "mod360 x = x - 360 * of_int \<lfloor>x / 360\<rfloor>"

text \<open>
  The segment that starts at screen position \<open>pos\<close> and runs \<open>len\<close> pixels along the
  compass heading \<open>h\<close> (radians, clockwise from north; the screen's y axis points down).
\<close>

definition arrow :: "real \<times> real \<Rightarrow> real \<Rightarrow> real \<Rightarrow> segment" where
  "arrow pos h len = (pos, (fst pos + len * sin h, snd pos - len * cos h))"

definition segment_length :: "segment \<Rightarrow> real" where
  "segment_length sg =
     sqrt ((fst (snd sg) - fst (fst sg))\<^sup>2 + (snd (snd sg) - snd (fst sg))\<^sup>2)"

definition well_formed :: "bbox \<Rightarrow> bool" where
  "well_formed b \<longleftrightarrow> west b \<le> east b \<and> south b \<le> north b"

definition inside :: "bbox \<Rightarrow> particle \<Rightarrow> bool" where
  "inside b p \<longleftrightarrow> west b \<le> lon p \<and> lon p \<le> east b \<and> south b \<le> lat p \<and> lat p \<le> north b"

text \<open>
  What one repaint does to a particle, for heading \<open>h\<close> and drift step \<open>ds\<close>: if the
  incremented age exceeds the cap of 300 the particle restarts at age 0 somewhere inside
  \<open>b\<close>; otherwise it has drifted one step and is one repaint older.
\<close>

definition stepped :: "bbox \<Rightarrow> real \<Rightarrow> real \<Rightarrow> particle \<Rightarrow> particle \<Rightarrow> bool" where
  "stepped b h ds p p' \<longleftrightarrow>
     (if age p + 1 > 300 then age p' = 0 \<and> inside b p'
      else p' = \<lparr>lon = lon p + ds * sin h, lat = lat p + ds * cos h, age = age p + 1\<rparr>)"

text \<open>The angular step of one orbit tick: slow in globe mode, faster in focus mode.\<close>

definition orbitStep :: "mode \<Rightarrow> real" where
  "orbitStep md = (case md of GlobeMode \<Rightarrow> 0.05 | FocusMode \<Rightarrow> 0.2)"

section \<open>Sample inputs\<close>

definition sampleStyle :: style where
  "sampleStyle =
     \<lparr>styleSources = [''composite'' \<mapsto> VectorTiles],
      styleLayers = [\<lparr>lid = ''land'', lkind = BaseLayer, lsource = None\<rparr>,
                     \<lparr>lid = ''waterway-label'', lkind = BaseLayer, lsource = Some ''composite''\<rparr>]\<rparr>"

definition sampleMap :: mapbox where
  "sampleMap =
     \<lparr>sources = styleSources sampleStyle,
      layers = styleLayers sampleStyle,
      terrain = None,
      styleLoaded = True,
      onceStyleLoad = [],
      cam = \<lparr>center = (0, 20), zoom = 1.5, pitch = 0, bearing = 0\<rparr>,
      bounds = \<lparr>west = - 10, south = - 5, east = 10, north = 5\<rparr>\<rparr>"

definition sampleOrbit :: orbit where
  "sampleOrbit =
     \<lparr>mapRef_o = Some sampleMap, rotatingRef_o = True, bearingRef_o = 0, modeRef_o = GlobeMode,
      animationRef_o = None, resumeTimerRef_o = None, frameRequests_o = 0, timers = [],
      timersCreated = 0, now = 0\<rparr>"

text \<open>The component as mounted and loaded, before any city is selected.\<close>

definition sampleGlobe :: globe where
  "sampleGlobe =
     \<lparr>mapRef = Some sampleMap,
      canvasRef = Some \<lparr>width = 800, height = 600, strokes = []\<rparr>,
      markerRef = None,
      highlightDataRef = None,
      animationRef = None,
      rotatingRef = True,
      bearingRef = 0,
      modeRef = GlobeMode,
      selectedCity = None,
      loading = False,
      results = None,
      show3D = False,
      particleArray = [],
      flowFrameRef = 0,
      windSeriesRef = [],
      threeStateRef = \<lparr>points = None, renderersBuilt = 0\<rparr>,
      randomCalls = 0,
      frameRequests = 0,
      drawClosures = [],
      boundaryFetches = []\<rparr>"

definition sampleEnv :: env where
  "sampleEnv =
     \<lparr>random = (\<lambda>i. 1 / (real i + 2)),
      project = (\<lambda>p. (fst p * 10, snd p * 10)),
      queryTerrainElevation = (\<lambda>p. None),
      fromLngLat = (\<lambda>p alt. (fst p / 360, snd p / 360, alt / 1000)),
      containerRect = (800, 600)\<rparr>"

definition samplePolygon :: geojson where
  "samplePolygon = Polygon [(2, 48), (3, 48), (3, 49), (2, 49), (2, 48)]"

text \<open>A 2D run in progress: one wind frame (from the east, 4 m/s) and two particles.\<close>

definition sampleArrows :: globe where
  "sampleArrows =
     sampleGlobe\<lparr>selectedCity := Some ''Paris'',
                 windSeriesRef := [\<lparr>direction_deg = 90, speed_ms = Some 4\<rparr>],
                 particleArray := [\<lparr>lon = 0, lat = 0, age = 300\<rparr>, \<lparr>lon = 1, lat = 2, age = 5\<rparr>],
                 drawClosures := [False]\<rparr>"

text \<open>Paris selected, with a boundary polygon returned by the backend.\<close>

definition sampleSelected :: globe where
  "sampleSelected =
     (case geocoderResult ''Paris'' (2.35, 48.85) (BoundaryReply (Some samplePolygon)) sampleGlobe of
        Inr s \<Rightarrow> s
      | Inl (e, s) \<Rightarrow> s)"

text \<open>3D mode with the point-cloud layer registered.\<close>

definition sample3D :: globe where
  "sample3D =
     (case add3DLayer sampleEnv (sampleGlobe\<lparr>selectedCity := Some ''Paris'', show3D := True\<rparr>) of
        Inr s \<Rightarrow> s
      | Inl (e, s) \<Rightarrow> s)"

text \<open>Terrain, buildings and the 3D point-cloud layer all in place.\<close>

definition sampleFull :: globe where
  "sampleFull =
     sampleGlobe
       \<lparr>mapRef := Some (sampleMap
          \<lparr>sources := [''composite'' \<mapsto> VectorTiles, ''mapbox-dem'' \<mapsto> RasterDem],
           layers := [\<lparr>lid = ''land'', lkind = BaseLayer, lsource = None\<rparr>,
                      buildingsLayer, particlesLayer,
                      \<lparr>lid = ''waterway-label'', lkind = BaseLayer, lsource = Some ''composite''\<rparr>],
           terrain := Some (''mapbox-dem'', 1.2)\<rparr>),
        selectedCity := Some ''Paris'',
        show3D := True\<rparr>"

text \<open>A backend reply with one wind frame, and the 2D renderer after a first run with it.\<close>

definition sampleFlux :: flux_data where
  "sampleFlux =
     \<lparr>wind_series = Some [\<lparr>direction_deg = 90, speed_ms = Some 4\<rparr>],
      net_flux_L = 1200, demand_L = 900\<rparr>"

definition sample2D :: globe where
  "sample2D = runSimulation sampleEnv (FluxReply sampleFlux) (sampleGlobe\<lparr>selectedCity := Some ''Paris''\<rparr>)"

section \<open>WindLayer: particles stay on the globe\<close>

lemma moveWind_on_globe:
  assumes "0 \<le> r1" "r1 < 1" "0 \<le> r2" "r2 < 1" "on_globe p"
  shows "on_globe (moveWind r1 r2 p)"
  using assms by (auto simp: on_globe_def moveWind_def Let_def)

lemma moveAll_on_globe:
  "unit_rng rnd \<Longrightarrow> list_all on_globe ps \<Longrightarrow> list_all on_globe (moveAll rnd k ps)"
  by (induction ps arbitrary: k) (auto simp: unit_rng_def intro: moveWind_on_globe)

lemma seedWind_on_globe: "unit_rng rnd \<Longrightarrow> list_all on_globe (seedWind rnd k n)"
proof (induction n arbitrary: k)
  case 0
  then show ?case by simp
next
  case (Suc n)
  have "0 \<le> rnd k" "rnd k < 1" "0 \<le> rnd (k + 1)" "rnd (k + 1) < 1"
    using Suc.prems by (auto simp: unit_rng_def)
  then have "on_globe \<lparr>wlon = rnd k * 360 - 180, wlat = rnd (k + 1) * 180 - 90\<rparr>"
    by (simp add: on_globe_def)
  with Suc show ?case by simp
qed

lemma length_seedWind: "length (seedWind rnd k n) = n"
  by (induction n arbitrary: k) auto

text \<open>
  C10. WindLayer keeps every particle on the globe. If every random number lies in
  \<open>[0, 1)\<close> then: whenever all particles have \<open>lon\<close> in \<open>[-180, 180]\<close> and \<open>lat\<close> in
  \<open>[-90, 90]\<close> before \<^verbatim>\<open>updateParticles\<close>, they all do after it; and
  \<^verbatim>\<open>initializeState\<close>, for a particle count that \<^verbatim>\<open>new Array\<close> accepts, returns a state
  with the requested number of particles, all of them in that range.
\<close>

theorem windlayer_particles_stay_on_globe:
  assumes "unit_rng rnd"
  shows "(list_all on_globe (wparticles st) \<longrightarrow>
            list_all on_globe (wparticles (updateParticles rnd st))) \<and>
         (0 \<le> numParticles prop \<and> numParticles prop \<le> 4294967295 \<longrightarrow>
            (\<exists>st0. initializeState rnd k prop = Inr st0 \<and>
                   length (wparticles st0) = nat (numParticles prop) \<and>
                   list_all on_globe (wparticles st0)))"
proof (intro conjI impI)
  assume "list_all on_globe (wparticles st)"
  with assms show "list_all on_globe (wparticles (updateParticles rnd st))"
    by (simp add: updateParticles_def moveAll_on_globe)
next
  assume "0 \<le> numParticles prop \<and> numParticles prop \<le> 4294967295"
  then have "initializeState rnd k prop =
      Inr \<lparr>wparticles = seedWind rnd k (nat (numParticles prop)),
           wcursor = k + 2 * nat (numParticles prop)\<rparr>"
    by (simp add: initializeState_def Let_def)
  with assms show "\<exists>st0. initializeState rnd k prop = Inr st0 \<and>
      length (wparticles st0) = nat (numParticles prop) \<and> list_all on_globe (wparticles st0)"
    by (simp add: seedWind_on_globe length_seedWind)
qed

theorem windlayer_particles_stay_on_globe_witness:
  "unit_rng (\<lambda>_. 1 / 2) \<and>
   list_all on_globe [\<lparr>wlon = 180, wlat = - 90\<rparr>] \<and>
   list_all on_globe
     (wparticles (updateParticles (\<lambda>_. 1 / 2) \<lparr>wparticles = [\<lparr>wlon = 180, wlat = - 90\<rparr>], wcursor = 0\<rparr>)) \<and>
   (\<exists>st0. initializeState (\<lambda>_. 1 / 2) 0 (Some 2) = Inr st0 \<and> length (wparticles st0) = 2 \<and>
          list_all on_globe (wparticles st0))"
proof -
  have r: "unit_rng (\<lambda>_. 1 / 2)" by (simp add: unit_rng_def)
  have p: "list_all on_globe [\<lparr>wlon = 180, wlat = - 90\<rparr>]" by (simp add: on_globe_def)
  have n: "0 \<le> numParticles (Some 2) \<and> numParticles (Some 2) \<le> 4294967295"
    by (simp add: numParticles_def)
  from windlayer_particles_stay_on_globe
         [OF r, of "\<lparr>wparticles = [\<lparr>wlon = 180, wlat = - 90\<rparr>], wcursor = 0\<rparr>" "Some 2" 0]
  show ?thesis using r p n by (simp add: numParticles_def)
qed

section \<open>Orbit: the bearing after N ticks\<close>

lemma animateOrbit_fe_step:
  assumes "rotatingRef_o s" "mapRef_o s = Some m"
  shows "bearingRef_o (animateOrbit_fe s) = bearingRef_o s + orbitStep (modeRef_o s)"
    and "rotatingRef_o (animateOrbit_fe s)"
    and "modeRef_o (animateOrbit_fe s) = modeRef_o s"
    and "\<exists>m'. mapRef_o (animateOrbit_fe s) = Some m' \<and>
              bearing (cam m') = bearingRef_o s + orbitStep (modeRef_o s)"
  using assms
  by (cases "modeRef_o s"; simp add: animateOrbit_fe_def Let_def orbitStep_def jumpTo_def)+

lemma animateOrbit_fe_ticks:
  assumes "rotatingRef_o s" "mapRef_o s = Some m"
  shows "bearingRef_o ((animateOrbit_fe ^^ n) s) = bearingRef_o s + real n * orbitStep (modeRef_o s) \<and>
         rotatingRef_o ((animateOrbit_fe ^^ n) s) \<and>
         modeRef_o ((animateOrbit_fe ^^ n) s) = modeRef_o s \<and>
         (\<exists>m'. mapRef_o ((animateOrbit_fe ^^ n) s) = Some m' \<and>
               (0 < n \<longrightarrow> bearing (cam m') = bearingRef_o s + real n * orbitStep (modeRef_o s)))"
proof (induction n)
  case 0
  with assms show ?case by simp
next
  case (Suc n)
  let ?t = "(animateOrbit_fe ^^ n) s"
  from Suc obtain m' where m': "mapRef_o ?t = Some m'" by blast
  from Suc have r: "rotatingRef_o ?t" by blast
  from animateOrbit_fe_step[OF r m'] Suc show ?case
    by (auto simp: algebra_simps)
qed

lemma animateOrbit_step:
  assumes "rotatingRef s" "mapRef s = Some m" "modeRef s = GlobeMode"
  shows "bearingRef (animateOrbit s) = bearingRef s + 0.05"
    and "rotatingRef (animateOrbit s)"
    and "modeRef (animateOrbit s) = GlobeMode"
    and "\<exists>m'. mapRef (animateOrbit s) = Some m' \<and> bearing (cam m') = bearingRef s + 0.05"
  using assms
  by (simp_all add: animateOrbit_def Let_def jumpTo_def requestAnimationFrame_def)

lemma animateOrbit_ticks:
  assumes "rotatingRef s" "mapRef s = Some m" "modeRef s = GlobeMode"
  shows "bearingRef ((animateOrbit ^^ n) s) = bearingRef s + real n * 0.05 \<and>
         rotatingRef ((animateOrbit ^^ n) s) \<and>
         modeRef ((animateOrbit ^^ n) s) = GlobeMode \<and>
         (\<exists>m'. mapRef ((animateOrbit ^^ n) s) = Some m' \<and>
               (0 < n \<longrightarrow> bearing (cam m') = bearingRef s + real n * 0.05))"
proof (induction n)
  case 0
  with assms show ?case by simp
next
  case (Suc n)
  let ?t = "(animateOrbit ^^ n) s"
  from Suc obtain m' where m': "mapRef ?t = Some m'" by blast
  from Suc have r: "rotatingRef ?t" and g: "modeRef ?t = GlobeMode" by blast+
  from animateOrbit_step[OF r m' g] Suc show ?case
    by (auto simp: algebra_simps)
qed

lemma mod360_range: "0 \<le> mod360 x \<and> mod360 x < 360"
proof -
  have "of_int \<lfloor>x / 360\<rfloor> \<le> x / 360" "x / 360 < of_int \<lfloor>x / 360\<rfloor> + 1" by linarith+
  then show ?thesis unfolding mod360_def by (auto simp: field_simps)
qed

lemma mod360_turns: "\<exists>k::int. x = mod360 x + 360 * of_int k"
  unfolding mod360_def by (rule exI[of _ "\<lfloor>x / 360\<rfloor>"]) simp

text \<open>
  C3 (as amended). While unpaused, with a map present, \<open>N\<close> consecutive ticks of
  \<^verbatim>\<open>animateOrbit\<close> leave the bearing at \<open>b0 + N * step\<close>, and that value, not
  reduced modulo 360, is what the last tick committed to the engine's camera; it differs
  from \<open>(b0 + N * step) mod 360\<close> by a whole number of turns. In the frontend version
  the step is 0.05 in globe mode and 0.2 in focus mode; in the 3D-capable version a tick
  advances in globe mode only, by 0.05.
\<close>

theorem orbit_bearing_unwrapped:
  "(rotatingRef_o s \<and> mapRef_o s \<noteq> None \<longrightarrow>
      bearingRef_o ((animateOrbit_fe ^^ n) s) = bearingRef_o s + real n * orbitStep (modeRef_o s) \<and>
      (0 < n \<longrightarrow> map_option (bearing \<circ> cam) (mapRef_o ((animateOrbit_fe ^^ n) s))
                   = Some (bearingRef_o s + real n * orbitStep (modeRef_o s))) \<and>
      (\<exists>k::int. bearingRef_o ((animateOrbit_fe ^^ n) s)
                   = mod360 (bearingRef_o s + real n * orbitStep (modeRef_o s)) + 360 * of_int k)) \<and>
   (rotatingRef g \<and> mapRef g \<noteq> None \<and> modeRef g = GlobeMode \<longrightarrow>
      bearingRef ((animateOrbit ^^ n) g) = bearingRef g + real n * orbitStep GlobeMode \<and>
      (0 < n \<longrightarrow> map_option (bearing \<circ> cam) (mapRef ((animateOrbit ^^ n) g))
                   = Some (bearingRef g + real n * orbitStep GlobeMode)))"
proof (intro conjI impI)
  assume a: "rotatingRef_o s \<and> mapRef_o s \<noteq> None"
  then obtain m where m: "mapRef_o s = Some m" by blast
  from a have r: "rotatingRef_o s" by blast
  note t = animateOrbit_fe_ticks[OF r m, of n]
  from t show "bearingRef_o ((animateOrbit_fe ^^ n) s) = bearingRef_o s + real n * orbitStep (modeRef_o s)"
    by blast
  then show "\<exists>k::int. bearingRef_o ((animateOrbit_fe ^^ n) s)
                   = mod360 (bearingRef_o s + real n * orbitStep (modeRef_o s)) + 360 * of_int k"
    using mod360_turns by simp
  assume "0 < n"
  with t show "map_option (bearing \<circ> cam) (mapRef_o ((animateOrbit_fe ^^ n) s))
                   = Some (bearingRef_o s + real n * orbitStep (modeRef_o s))"
    by auto
next
  assume a: "rotatingRef g \<and> mapRef g \<noteq> None \<and> modeRef g = GlobeMode"
  then obtain m where m: "mapRef g = Some m" by blast
  from a have r: "rotatingRef g" and md: "modeRef g = GlobeMode" by blast+
  note t = animateOrbit_ticks[OF r m md, of n]
  from t show "bearingRef ((animateOrbit ^^ n) g) = bearingRef g + real n * orbitStep GlobeMode"
    by (simp add: orbitStep_def)
  assume "0 < n"
  with t show "map_option (bearing \<circ> cam) (mapRef ((animateOrbit ^^ n) g))
                   = Some (bearingRef g + real n * orbitStep GlobeMode)"
    by (auto simp: orbitStep_def)
qed

text \<open>
  The bearing is not wrapped: 1800 focus-mode ticks from bearing 0 commit 360, where
  \<open>(0 + 1800 * 0.2) mod 360\<close> is 0.
\<close>

theorem orbit_bearing_not_wrapped:
  "bearingRef_o ((animateOrbit_fe ^^ 1800) (sampleOrbit\<lparr>modeRef_o := FocusMode\<rparr>)) = 360 \<and>
   mod360 (bearingRef_o (sampleOrbit\<lparr>modeRef_o := FocusMode\<rparr>) + 1800 * orbitStep FocusMode) = 0"
proof -
  let ?s = "sampleOrbit\<lparr>modeRef_o := FocusMode\<rparr>"
  have r: "rotatingRef_o ?s" and m: "mapRef_o ?s = Some sampleMap"
    by (simp_all add: sampleOrbit_def)
  from animateOrbit_fe_ticks[OF r m, of 1800]
  have "bearingRef_o ((animateOrbit_fe ^^ 1800) ?s) = 360"
    by (simp add: sampleOrbit_def orbitStep_def)
  moreover have "mod360 (bearingRef_o ?s + 1800 * orbitStep FocusMode) = 0"
    by (simp add: sampleOrbit_def orbitStep_def mod360_def)
  ultimately show ?thesis by simp
qed

theorem orbit_bearing_unwrapped_witness:
  "rotatingRef_o sampleOrbit \<and> mapRef_o sampleOrbit \<noteq> None \<and>
   bearingRef_o ((animateOrbit_fe ^^ 2) sampleOrbit) = 0.1 \<and>
   rotatingRef sampleGlobe \<and> mapRef sampleGlobe \<noteq> None \<and> modeRef sampleGlobe = GlobeMode \<and>
   bearingRef ((animateOrbit ^^ 2) sampleGlobe) = 0.1"
  using orbit_bearing_unwrapped[of sampleOrbit 2 sampleGlobe]
  by (simp add: sampleOrbit_def sampleGlobe_def orbitStep_def)

section \<open>Orbit: pause and resume\<close>

lemma pauseOrbitWith_timers:
  assumes "timers_tracked s"
  shows "pauseOrbitWith cb s =
           s\<lparr>rotatingRef_o := False,
             timers := [(timersCreated s + 1, now s + 5000, cb)],
             timersCreated := timersCreated s + 1,
             resumeTimerRef_o := Some (timersCreated s + 1)\<rparr>"
proof (cases "resumeTimerRef_o s")
  case None
  with assms have "timers s = []"
    by (cases "timers s") (auto simp: timers_tracked_def)
  with None show ?thesis
    by (simp add: pauseOrbitWith_def setTimeout_def Let_def)
next
  case (Some i)
  show ?thesis
  proof (cases "i = 0")
    case True
    with Some assms have "timers s = []"
      by (cases "timers s") (auto simp: timers_tracked_def)
    with Some True show ?thesis
      by (simp add: pauseOrbitWith_def setTimeout_def Let_def)
  next
    case False
    from Some assms have "filter (\<lambda>t. fst t \<noteq> i) (timers s) = []"
      by (auto simp: timers_tracked_def filter_empty_conv)
    with Some False show ?thesis
      by (simp add: pauseOrbitWith_def setTimeout_def clearTimeout_def Let_def)
  qed
qed

lemma pauseOrbitWith_tracked: "timers_tracked s \<Longrightarrow> timers_tracked (pauseOrbitWith cb s)"
  by (simp add: pauseOrbitWith_timers) (simp add: timers_tracked_def)

lemma runTimers_fields:
  "resumeTimerRef_o (runTimers ts s) = resumeTimerRef_o s \<and> timers (runTimers ts s) = timers s \<and>
   modeRef_o (runTimers ts s) = modeRef_o s"
proof (induction ts arbitrary: s)
  case Nil
  show ?case by simp
next
  case (Cons t ts)
  have "resumeTimerRef_o (runTimer cb s) = resumeTimerRef_o s \<and> timers (runTimer cb s) = timers s \<and>
        modeRef_o (runTimer cb s) = modeRef_o s" for cb
    by (cases cb) simp_all
  with Cons show ?case by simp
qed

lemma elapse_tracked: "timers_tracked s \<Longrightarrow> timers_tracked (elapse d s)"
  by (auto simp: elapse_def Let_def runTimers_fields timers_tracked_def)

lemma elapse_after_pause:
  assumes "timers_tracked s"
  shows "rotatingRef_o (elapse d (pauseOrbitWith cb s)) \<longleftrightarrow>
           5000 \<le> d \<and> (cb = Resume \<or> modeRef_o s = GlobeMode)"
  by (cases cb) (simp_all add: pauseOrbitWith_timers[OF assms] elapse_def Let_def)

lemma runTimer_idem: "runTimer cb (runTimer cb s) = runTimer cb s"
  by (cases cb) simp_all

lemma elapse_mode: "modeRef_o (elapse d s) = modeRef_o s"
  by (simp add: elapse_def Let_def runTimers_fields)

lemma pause_mode: "timers_tracked s \<Longrightarrow> modeRef_o (pauseOrbitWith cb s) = modeRef_o s"
  by (simp add: pauseOrbitWith_timers)

text \<open>
  C8 (as amended). Let every pending timer be the one \<^verbatim>\<open>resumeTimerRef\<close> holds (true
  initially, and kept by \<^verbatim>\<open>pauseOrbit\<close> and by the passing of time). \<^verbatim>\<open>pauseOrbit\<close>
  stops the rotation at once. With no further event, \<open>d\<close> milliseconds later the
  rotation flag is set exactly when \<open>d\<close> has reached the fixed delay of 5000 ms - and, in
  the version whose timer callback checks the mode, only if the mode is globe. A second
  \<^verbatim>\<open>pauseOrbit\<close>, \<open>d1\<close> milliseconds after the first, restarts the timer: the delay
  counts from the last call. Running the resume callback twice is the same as running it
  once.
\<close>

theorem pause_resumes_after_delay:
  assumes "timers_tracked s"
  shows "\<not> rotatingRef_o (pauseOrbit_fe s) \<and> \<not> rotatingRef_o (pauseOrbit_alt s) \<and>
         (rotatingRef_o (elapse d (pauseOrbit_fe s)) \<longleftrightarrow> 5000 \<le> d) \<and>
         (rotatingRef_o (elapse d (pauseOrbit_alt s)) \<longleftrightarrow> 5000 \<le> d \<and> modeRef_o s = GlobeMode) \<and>
         (rotatingRef_o (elapse d (pauseOrbit_fe (elapse d1 (pauseOrbit_fe s)))) \<longleftrightarrow> 5000 \<le> d) \<and>
         (rotatingRef_o (elapse d (pauseOrbit_alt (elapse d1 (pauseOrbit_alt s)))) \<longleftrightarrow>
            5000 \<le> d \<and> modeRef_o s = GlobeMode) \<and>
         timers_tracked (pauseOrbit_fe s) \<and> timers_tracked (pauseOrbit_alt s) \<and>
         timers_tracked (elapse d s) \<and>
         runTimer cb (runTimer cb s) = runTimer cb s"
proof -
  have t1: "timers_tracked (elapse d1 (pauseOrbitWith c s))" for c
    using assms by (simp add: elapse_tracked pauseOrbitWith_tracked)
  have m1: "modeRef_o (elapse d1 (pauseOrbitWith c s)) = modeRef_o s" for c
    using assms by (simp add: elapse_mode pause_mode)
  have p: "\<not> rotatingRef_o (pauseOrbitWith c s)" for c
    using assms by (simp add: pauseOrbitWith_timers)
  have a: "rotatingRef_o (elapse d (pauseOrbitWith c s)) \<longleftrightarrow>
             5000 \<le> d \<and> (c = Resume \<or> modeRef_o s = GlobeMode)" for c
    using assms by (rule elapse_after_pause)
  have b: "rotatingRef_o (elapse d (pauseOrbitWith c (elapse d1 (pauseOrbitWith c s)))) \<longleftrightarrow>
             5000 \<le> d \<and> (c = Resume \<or> modeRef_o s = GlobeMode)" for c
    using elapse_after_pause[OF t1, of d c c] by (simp add: m1)
  show ?thesis
    unfolding pauseOrbit_fe_def pauseOrbit_alt_def
    using assms
    by (simp add: p a b pauseOrbitWith_tracked elapse_tracked runTimer_idem)
qed

theorem pause_resumes_after_delay_witness:
  "timers_tracked sampleOrbit \<and>
   \<not> rotatingRef_o (elapse 4999 (pauseOrbit_fe sampleOrbit)) \<and>
   rotatingRef_o (elapse 5000 (pauseOrbit_fe sampleOrbit)) \<and>
   \<not> rotatingRef_o (elapse 4999 (pauseOrbit_fe (elapse 3000 (pauseOrbit_fe sampleOrbit)))) \<and>
   rotatingRef_o (elapse 5000 (pauseOrbit_fe (elapse 3000 (pauseOrbit_fe sampleOrbit))))"
proof -
  have t: "timers_tracked sampleOrbit" by (simp add: timers_tracked_def sampleOrbit_def)
  from pause_resumes_after_delay[OF t, of 4999 3000] pause_resumes_after_delay[OF t, of 5000 3000]
  show ?thesis using t by simp
qed

text \<open>
  In the version whose timer callback is \<^verbatim>\<open>if (modeRef.current === "globe") ...\<close>, a
  pause in focus mode is not followed by a resume when the delay has passed.
\<close>

theorem gated_pause_never_resumes_in_focus:
  "\<not> rotatingRef_o (elapse 5000 (pauseOrbit_alt (sampleOrbit\<lparr>modeRef_o := FocusMode\<rparr>)))"
  by (simp add: pauseOrbit_alt_def pauseOrbitWith_def setTimeout_def elapse_def Let_def sampleOrbit_def)

section \<open>The 2D arrow renderer\<close>

lemma spawn_in_range:
  assumes "0 \<le> r" "r < 1" "(lo::real) \<le> hi"
  shows "lo \<le> lo + r * (hi - lo) \<and> lo + r * (hi - lo) \<le> hi"
proof -
  have "0 \<le> r * (hi - lo)" using assms by simp
  moreover have "r * (hi - lo) \<le> 1 * (hi - lo)"
    using assms by (intro mult_right_mono) auto
  ultimately show ?thesis by simp
qed

lemma spawn_inside:
  assumes "unit_rng rnd" "well_formed b"
  shows "inside b \<lparr>lon = spawnLon b (rnd i), lat = spawnLat b (rnd j), age = a\<rparr>"
proof -
  have "0 \<le> rnd i" "rnd i < 1" "0 \<le> rnd j" "rnd j < 1"
    using assms(1) by (auto simp: unit_rng_def)
  with assms(2) show ?thesis
    using spawn_in_range[of "rnd i" "west b" "east b"] spawn_in_range[of "rnd j" "south b" "north b"]
    by (simp add: inside_def well_formed_def spawnLon_def spawnLat_def)
qed

lemma seedParticles_inside:
  "unit_rng rnd \<Longrightarrow> well_formed b \<Longrightarrow> list_all (inside b) (seedParticles rnd b k n)"
  by (induction n arbitrary: k) (simp_all add: spawn_inside)

lemma length_seedParticles: "length (seedParticles rnd b k n) = n"
  by (induction n arbitrary: k) simp_all

lemma drawParticle_stepped:
  assumes "unit_rng (random e)" "well_formed (getBounds m)"
  shows "stepped (getBounds m) h ds p (fst (snd (drawParticle e m h bl ds k p)))"
  using assms spawn_inside[OF assms, of k "k + 1" 0]
  by (simp add: drawParticle_def Let_def stepped_def)

lemma drawParticle_seg: "fst (drawParticle e m h bl ds k p) = arrow (project e (lon p, lat p)) h bl"
  by (simp add: drawParticle_def Let_def arrow_def)

lemma drawParticles_segs:
  "fst (drawParticles e m h bl ds k ps) = map (\<lambda>p. arrow (project e (lon p, lat p)) h bl) ps"
proof (induction ps arbitrary: k)
  case Nil
  show ?case by simp
next
  case (Cons p ps)
  obtain sg p' k1 where d: "drawParticle e m h bl ds k p = (sg, p', k1)"
    by (cases "drawParticle e m h bl ds k p") auto
  obtain sgs ps' k2 where r: "drawParticles e m h bl ds k1 ps = (sgs, ps', k2)"
    by (cases "drawParticles e m h bl ds k1 ps") auto
  from drawParticle_seg[of e m h bl ds k p] d have "sg = arrow (project e (lon p, lat p)) h bl"
    by simp
  moreover from Cons[of k1] r have "sgs = map (\<lambda>p. arrow (project e (lon p, lat p)) h bl) ps"
    by simp
  ultimately show ?case using d r by simp
qed

lemma drawParticles_stepped:
  assumes "unit_rng (random e)" "well_formed (getBounds m)"
  shows "list_all2 (stepped (getBounds m) h ds) ps (fst (snd (drawParticles e m h bl ds k ps)))"
proof (induction ps arbitrary: k)
  case Nil
  show ?case by simp
next
  case (Cons p ps)
  obtain sg p' k1 where d: "drawParticle e m h bl ds k p = (sg, p', k1)"
    by (cases "drawParticle e m h bl ds k p") auto
  obtain sgs ps' k2 where r: "drawParticles e m h bl ds k1 ps = (sgs, ps', k2)"
    by (cases "drawParticles e m h bl ds k1 ps") auto
  from drawParticle_stepped[OF assms, of h ds p bl k] d have "stepped (getBounds m) h ds p p'"
    by simp
  moreover from Cons[of k1] r have "list_all2 (stepped (getBounds m) h ds) ps ps'"
    by simp
  ultimately show ?case using d r by simp
qed

lemma sin_cos_turns:
  "sin (x + 2 * pi * of_int k) = sin x \<and> cos (x + 2 * pi * of_int k) = cos x"
  by (simp add: sin_add cos_add)

lemma jsrem_mod360: "\<exists>k::int. jsrem x 360 = mod360 x + 360 * of_int k"
proof -
  let ?q = "if x / 360 < 0 then \<lceil>x / 360\<rceil> else \<lfloor>x / 360\<rfloor>"
  have "jsrem x 360 = mod360 x + 360 * of_int (\<lfloor>x / 360\<rfloor> - ?q)"
    unfolding jsrem_def mod360_def by (simp add: algebra_simps)
  then show ?thesis by blast
qed

lemma heading_same_direction:
  "sin (jsrem x 360 * (pi / 180)) = sin (mod360 x * pi / 180) \<and>
   cos (jsrem x 360 * (pi / 180)) = cos (mod360 x * pi / 180)"
proof -
  obtain k :: int where k: "jsrem x 360 = mod360 x + 360 * of_int k"
    using jsrem_mod360 by blast
  have e: "jsrem x 360 * (pi / 180) = mod360 x * pi / 180 + 2 * pi * of_int k"
    unfolding k by (simp add: algebra_simps)
  show ?thesis unfolding e by (rule sin_cos_turns)
qed

lemma arrow_heading:
  "arrow pos (frameHeading f) len = arrow pos (mod360 (direction_deg f + 180) * pi / 180) len"
  unfolding arrow_def frameHeading_def using heading_same_direction[of "direction_deg f + 180"]
  by simp

lemma jsrem_nonneg: "0 \<le> x \<Longrightarrow> jsrem x 360 = mod360 x"
  by (simp add: jsrem_def mod360_def)

lemma segment_length_arrow: "segment_length (arrow pos h len) = \<bar>len\<bar>"
proof -
  have "(len * sin h)\<^sup>2 + (len * cos h)\<^sup>2 = len\<^sup>2 * ((sin h)\<^sup>2 + (cos h)\<^sup>2)"
    by (simp only: power_mult_distrib distrib_left)
  also have "\<dots> = len\<^sup>2" by simp
  finally show ?thesis by (simp add: segment_length_def arrow_def)
qed

lemma draw_active:
  assumes "mapRef s = Some m" "canvasRef s = Some c" "windSeriesRef s \<noteq> []"
  shows "particleArray (draw False e s) =
           fst (snd (drawParticles e m (frameHeading (currentFrame s))
                       (baseLen (frameSpeed (currentFrame s)))
                       (driftStep (frameSpeed (currentFrame s))) (randomCalls s) (particleArray s)))"
    and "canvasRef (draw False e s) =
           Some (c\<lparr>strokes := fst (drawParticles e m (frameHeading (currentFrame s))
                       (baseLen (frameSpeed (currentFrame s)))
                       (driftStep (frameSpeed (currentFrame s))) (randomCalls s) (particleArray s))\<rparr>)"
  using assms
  by (simp_all add: draw_def Let_def clearRect_def requestAnimationFrame_def split: prod.splits)

lemma draw_idle:
  assumes "mapRef s = Some m" "canvasRef s = Some c" "captured3D \<or> windSeriesRef s = []"
  shows "particleArray (draw captured3D e s) = particleArray s"
    and "canvasRef (draw captured3D e s) = Some (c\<lparr>strokes := []\<rparr>)"
  using assms
  by (auto simp: draw_def Let_def clearRect_def requestAnimationFrame_def)

text \<open>
  C6. Particle age and spawn positions. Let the random numbers lie in \<open>[0, 1)\<close> and
  the map's current bounds have \<open>west \<le> east\<close> and \<open>south \<le> north\<close>. In a repaint
  that draws (the closure is not suppressed and the wind series is not empty), each
  particle is aged by one; exactly when the aged value exceeds the cap of 300 its age
  becomes 0 and its position is drawn anew inside the current bounds, and otherwise it
  keeps the aged value and its drifted position. A repaint that does not draw leaves
  the particles as they are. Every particle seeded by \<^verbatim>\<open>init2DArrows\<close> lies inside
  the bounds it was seeded from.
\<close>

theorem particles_respawn_inside_bounds:
  assumes "unit_rng (random e)" "mapRef s = Some m" "canvasRef s = Some c"
    "well_formed (getBounds m)"
  shows "(\<not> captured3D \<and> windSeriesRef s \<noteq> [] \<longrightarrow>
            list_all2 (stepped (getBounds m) (frameHeading (currentFrame s))
                         (driftStep (frameSpeed (currentFrame s))))
              (particleArray s) (particleArray (draw captured3D e s))) \<and>
         (captured3D \<or> windSeriesRef s = [] \<longrightarrow>
            particleArray (draw captured3D e s) = particleArray s) \<and>
         list_all (inside (getBounds m)) (seedParticles (random e) (getBounds m) k n)"
proof (intro conjI impI)
  assume a: "\<not> captured3D \<and> windSeriesRef s \<noteq> []"
  then have f: "captured3D = False" and w: "windSeriesRef s \<noteq> []" by simp_all
  show "list_all2 (stepped (getBounds m) (frameHeading (currentFrame s))
                         (driftStep (frameSpeed (currentFrame s))))
              (particleArray s) (particleArray (draw captured3D e s))"
    unfolding f draw_active(1)[OF assms(2,3) w]
    by (rule drawParticles_stepped[OF assms(1,4)])
next
  assume "captured3D \<or> windSeriesRef s = []"
  then show "particleArray (draw captured3D e s) = particleArray s"
    by (rule draw_idle(1)[OF assms(2,3)])
next
  show "list_all (inside (getBounds m)) (seedParticles (random e) (getBounds m) k n)"
    using assms(1,4) by (rule seedParticles_inside)
qed

lemma sampleEnv_unit: "unit_rng (random sampleEnv)"
  by (simp add: unit_rng_def sampleEnv_def)

theorem particles_respawn_inside_bounds_witness:
  "unit_rng (random sampleEnv) \<and> mapRef sampleArrows = Some sampleMap \<and>
   well_formed (getBounds sampleMap) \<and> windSeriesRef sampleArrows \<noteq> [] \<and>
   list_all2 (stepped (getBounds sampleMap) (frameHeading (currentFrame sampleArrows))
                (driftStep (frameSpeed (currentFrame sampleArrows))))
     (particleArray sampleArrows) (particleArray (draw False sampleEnv sampleArrows)) \<and>
   list_all (inside (getBounds sampleMap))
     (seedParticles (random sampleEnv) (getBounds sampleMap) 0 200)"
proof -
  have m: "mapRef sampleArrows = Some sampleMap"
    by (simp add: sampleArrows_def sampleGlobe_def)
  have c: "canvasRef sampleArrows = Some \<lparr>width = 800, height = 600, strokes = []\<rparr>"
    by (simp add: sampleArrows_def sampleGlobe_def)
  have b: "well_formed (getBounds sampleMap)"
    by (simp add: well_formed_def getBounds_def sampleMap_def)
  have w: "windSeriesRef sampleArrows \<noteq> []"
    by (simp add: sampleArrows_def)
  from particles_respawn_inside_bounds[OF sampleEnv_unit m c b, of False 0 200]
  show ?thesis using sampleEnv_unit m b w by simp
qed

text \<open>
  C5. Heading and length of the drawn arrows. In a repaint that draws, with the current
  wind frame of direction \<open>d\<close> degrees and speed \<open>v\<close>, the canvas holds one segment per
  particle: it starts at the particle's projected position and runs along the heading
  \<open>((d + 180) mod 360)\<close> degrees, taken in radians, for \<open>min(18, v * 0.5)\<close> pixels;
  for a speed that is not negative that is its Euclidean length. The witness is the
  scenario of a single frame with direction 90 and speed 4: heading 270 degrees in
  radians, length \<open>min(18, 4 * 0.5)\<close>.
\<close>

theorem arrows_follow_wind:
  assumes "mapRef s = Some m" "canvasRef s = Some c" "windSeriesRef s \<noteq> []"
    "direction_deg (currentFrame s) = d" "speed_ms (currentFrame s) = Some v"
  shows "map_option strokes (canvasRef (draw False e s)) =
           Some (map (\<lambda>p. arrow (project e (lon p, lat p)) (mod360 (d + 180) * pi / 180)
                             (min 18 (v * 0.5)))
                   (particleArray s)) \<and>
         (0 \<le> v \<longrightarrow>
            segment_length (arrow pos (mod360 (d + 180) * pi / 180) (min 18 (v * 0.5)))
              = min 18 (v * 0.5))"
proof
  have "frameSpeed (currentFrame s) = v" using assms(5) by (simp add: frameSpeed_def)
  then have "baseLen (frameSpeed (currentFrame s)) = min 18 (v * 0.5)" by (simp add: baseLen_def)
  moreover have "arrow q (frameHeading (currentFrame s)) l = arrow q (mod360 (d + 180) * pi / 180) l"
    for q l using arrow_heading[of q "currentFrame s" l] assms(4) by simp
  ultimately show "map_option strokes (canvasRef (draw False e s)) =
           Some (map (\<lambda>p. arrow (project e (lon p, lat p)) (mod360 (d + 180) * pi / 180)
                             (min 18 (v * 0.5)))
                   (particleArray s))"
    by (simp add: draw_active(2)[OF assms(1-3)] drawParticles_segs)
  show "0 \<le> v \<longrightarrow>
            segment_length (arrow pos (mod360 (d + 180) * pi / 180) (min 18 (v * 0.5)))
              = min 18 (v * 0.5)"
    by (simp add: segment_length_arrow)
qed

theorem arrows_follow_wind_witness:
  "mapRef sampleArrows = Some sampleMap \<and> windSeriesRef sampleArrows \<noteq> [] \<and>
   currentFrame sampleArrows = \<lparr>direction_deg = 90, speed_ms = Some 4\<rparr> \<and>
   map_option strokes (canvasRef (draw False sampleEnv sampleArrows)) =
     Some (map (\<lambda>p. arrow (project sampleEnv (lon p, lat p)) (270 * pi / 180) (min 18 (4 * 0.5)))
             (particleArray sampleArrows))"
proof -
  have m: "mapRef sampleArrows = Some sampleMap"
    by (simp add: sampleArrows_def sampleGlobe_def)
  have c: "canvasRef sampleArrows = Some \<lparr>width = 800, height = 600, strokes = []\<rparr>"
    by (simp add: sampleArrows_def sampleGlobe_def)
  have w: "windSeriesRef sampleArrows \<noteq> []"
    by (simp add: sampleArrows_def)
  have f: "currentFrame sampleArrows = \<lparr>direction_deg = 90, speed_ms = Some 4\<rparr>"
    by (simp add: currentFrame_def sampleArrows_def sampleGlobe_def)
  have d: "direction_deg (currentFrame sampleArrows) = 90" and v: "speed_ms (currentFrame sampleArrows) = Some 4"
    by (simp_all add: f)
  have t: "mod360 (90 + 180) = 270" by (simp add: mod360_def)
  from arrows_follow_wind[OF m c w d v, of sampleEnv]
  show ?thesis using m w f t by simp
qed

section \<open>Attaching sources and layers\<close>

lemma removeLayerIfPresent_eq:
  "removeLayerIfPresent i m = Inr (m\<lparr>layers := filter (\<lambda>l. lid l \<noteq> i) (layers m)\<rparr>)"
proof (cases "getLayer m i")
  case True
  then show ?thesis by (simp add: removeLayerIfPresent_def removeLayer_def)
next
  case False
  then have "filter (\<lambda>l. lid l \<noteq> i) (layers m) = layers m"
    by (auto simp: getLayer_def filter_id_conv)
  with False show ?thesis by (simp add: removeLayerIfPresent_def)
qed

lemma removeSourceIfPresent_eq:
  "removeSourceIfPresent i m = Inr (m\<lparr>sources := (sources m)(i := None)\<rparr>)"
proof (cases "getSource m i")
  case True
  then show ?thesis by (simp add: removeSourceIfPresent_def removeSource_def)
next
  case False
  then have "(sources m)(i := None) = sources m"
    by (auto simp: getSource_def fun_upd_idem)
  with False show ?thesis by (simp add: removeSourceIfPresent_def)
qed

lemma highlightBody_eq:
  "runDeferred (AddHighlightBody g) m =
     Inr (m\<lparr>sources := (sources m)(''highlight'' \<mapsto> GeoJsonSource g),
            layers := filter (\<lambda>l. lid l \<noteq> ''highlight-fill'' \<and> lid l \<noteq> ''highlight-outline'')
                        (layers m) @ [highlightFill, highlightOutline]\<rparr>)"
  by (cases m)
     (auto simp: removeLayerIfPresent_eq removeSourceIfPresent_eq andThen_def addSource_def
        addLayer_def getSource_def getLayer_def highlightFill_def highlightOutline_def)

lemma terrainBody_eq:
  "runDeferred EnsureTerrainBody m =
     Inr (m\<lparr>sources := (if getSource m ''mapbox-dem'' then sources m
                          else (sources m)(''mapbox-dem'' \<mapsto> RasterDem)),
            terrain := Some (''mapbox-dem'', 1.2)\<rparr>)"
  by (simp add: andThen_def addSource_def setTerrain_def)

lemma buildingsBody_eq:
  "runDeferred Add3DBuildingsBody m =
     (if getLayer m ''3d-buildings'' \<or> \<not> getSource m ''composite'' then Inr m
      else if getLayer m ''waterway-label''
           then Inr (m\<lparr>layers := insertBefore ''waterway-label'' buildingsLayer (layers m)\<rparr>)
           else Inl (NotRegistered ''waterway-label''))"
  by (simp add: addLayer_def buildingsLayer_def)

lemma lids_insertBefore:
  "lid ` set (insertBefore b l xs) = insert (lid l) (lid ` set xs)"
  by (induction xs) auto


declare runDeferred.simps [simp del]

lemma deferOrRun_loaded:
  assumes "mapRef s = Some m" "isStyleLoaded m"
  shows "deferOrRun fn s =
           (case runDeferred fn m of Inl e \<Rightarrow> Inl (e, s) | Inr m1 \<Rightarrow> Inr (s\<lparr>mapRef := Some m1\<rparr>))"
  using assms by (simp add: deferOrRun_def whenStyleReady_def andThen_def split: sum.splits)

lemma deferOrRun_waiting:
  assumes "mapRef s = Some m" "\<not> isStyleLoaded m"
  shows "deferOrRun fn s = Inr (s\<lparr>mapRef := Some (m\<lparr>onceStyleLoad := onceStyleLoad m @ [fn]\<rparr>)\<rparr>)"
  using assms by (simp add: deferOrRun_def whenStyleReady_def)

lemma same_map: "mapRef s = Some m \<Longrightarrow> s\<lparr>mapRef := Some m\<rparr> = s"
  by (cases s) simp

lemma runDeferred_styleLoaded:
  "runDeferred fn m = Inr m' \<Longrightarrow> isStyleLoaded m' = isStyleLoaded m"
  by (cases fn)
     (auto simp: terrainBody_eq buildingsBody_eq highlightBody_eq isStyleLoaded_def
           split: if_splits)

lemma styleLoadHandler_replay:
  assumes "mapRef s = Some m" "isStyleLoaded m"
  shows "styleLoadHandler s = Inr s1 \<longleftrightarrow>
           (\<exists>m'. replay (highlightDataRef s) m = Inr m' \<and> s1 = s\<lparr>mapRef := Some m'\<rparr>)"
proof -
  have t: "ensureTerrain s = (case runDeferred EnsureTerrainBody m of
              Inl e \<Rightarrow> Inl (e, s) | Inr m1 \<Rightarrow> Inr (s\<lparr>mapRef := Some m1\<rparr>))"
    using assms by (simp add: ensureTerrain_def deferOrRun_loaded)
  obtain m1 where m1: "runDeferred EnsureTerrainBody m = Inr m1"
    by (simp add: terrainBody_eq)
  have l1: "isStyleLoaded m1" using runDeferred_styleLoaded[OF m1] assms by simp
  let ?s1 = "s\<lparr>mapRef := Some m1\<rparr>"
  have b: "add3DBuildings ?s1 = (case runDeferred Add3DBuildingsBody m1 of
              Inl e \<Rightarrow> Inl (e, ?s1) | Inr m2 \<Rightarrow> Inr (s\<lparr>mapRef := Some m2\<rparr>))"
    using l1 by (simp add: add3DBuildings_def deferOrRun_loaded[of ?s1 m1] split: sum.splits)
  show ?thesis
  proof (cases "runDeferred Add3DBuildingsBody m1")
    case (Inl e)
    then show ?thesis
      by (simp add: styleLoadHandler_def bind_def t m1 b replay_def andThen_def)
  next
    case (Inr m2)
    have l2: "isStyleLoaded m2" using runDeferred_styleLoaded[OF Inr] l1 by simp
    let ?s2 = "s\<lparr>mapRef := Some m2\<rparr>"
    show ?thesis
    proof (cases "highlightDataRef s")
      case None
      then show ?thesis
        by (auto simp: styleLoadHandler_def bind_def t m1 b Inr replay_def andThen_def
            restoreHighlight_def)
    next
      case (Some g)
      have "restoreHighlight ?s2 = (case runDeferred (AddHighlightBody g) m2 of
              Inl e \<Rightarrow> Inl (e, ?s2) | Inr m3 \<Rightarrow> Inr (s\<lparr>mapRef := Some m3\<rparr>))"
        using l2 Some
        by (simp add: restoreHighlight_def addHighlightLayer_def deferOrRun_loaded[of ?s2 m2]
            split: sum.splits)
      then show ?thesis using Some
        by (auto simp: styleLoadHandler_def bind_def t m1 b Inr replay_def andThen_def
            highlightBody_eq)
    qed
  qed
qed

lemma terrain_attached:
  assumes "getSource m ''mapbox-dem''" "terrain m = Some (''mapbox-dem'', 1.2)"
  shows "runDeferred EnsureTerrainBody m = Inr m"
  using assms by (cases m) (simp add: terrainBody_eq)

lemma buildings_attached:
  assumes "getLayer m ''3d-buildings'' \<or> \<not> getSource m ''composite''"
  shows "runDeferred Add3DBuildingsBody m = Inr m"
  using assms by (auto simp: buildingsBody_eq)

lemma highlight_attached:
  assumes "sources m ''highlight'' = Some (GeoJsonSource g)"
    "layers m = filter (\<lambda>l. lid l \<noteq> ''highlight-fill'' \<and> lid l \<noteq> ''highlight-outline'')
                       (layers m) @ [highlightFill, highlightOutline]"
  shows "runDeferred (AddHighlightBody g) m = Inr m"
proof -
  have "(sources m)(''highlight'' \<mapsto> GeoJsonSource g) = sources m"
    using assms(1) by (simp add: fun_upd_idem)
  then have "m\<lparr>sources := (sources m)(''highlight'' \<mapsto> GeoJsonSource g),
            layers := filter (\<lambda>l. lid l \<noteq> ''highlight-fill'' \<and> lid l \<noteq> ''highlight-outline'')
                        (layers m) @ [highlightFill, highlightOutline]\<rparr> = m"
    using assms(2) by (cases m) simp
  then show ?thesis by (simp add: highlightBody_eq)
qed

lemma attached_replay: "attached h m \<Longrightarrow> replay h m = Inr m"
  by (cases h)
     (simp_all add: attached_def replay_def andThen_def terrain_attached buildings_attached
        highlight_attached)

lemma insertBefore_mem: "l \<in> set (insertBefore b l xs)"
  by (induction xs) auto

lemma replay_attached:
  assumes "replay h m = Inr m'"
  shows "attached h m'"
proof -
  obtain m1 where m1: "runDeferred EnsureTerrainBody m = Inr m1"
    by (simp add: terrainBody_eq)
  have t1: "getSource m1 ''mapbox-dem''" "terrain m1 = Some (''mapbox-dem'', 1.2)"
    using m1 by (auto simp: terrainBody_eq getSource_def)
  from assms m1 obtain m2 where m2: "runDeferred Add3DBuildingsBody m1 = Inr m2"
    and r: "(case h of None \<Rightarrow> Inr m2 | Some g \<Rightarrow> runDeferred (AddHighlightBody g) m2) = Inr m'"
    by (auto simp: replay_def andThen_def split: sum.splits)
  have t2: "getSource m2 ''mapbox-dem''" "terrain m2 = Some (''mapbox-dem'', 1.2)"
    using m2 t1 by (auto simp: buildingsBody_eq getSource_def split: if_splits)
  have b2: "getLayer m2 ''3d-buildings'' \<or> \<not> getSource m2 ''composite''"
    using m2
    by (auto simp: buildingsBody_eq getSource_def getLayer_def lids_insertBefore buildingsLayer_def
        split: if_splits)
  show ?thesis
  proof (cases h)
    case None
    with r t2 b2 show ?thesis by (simp add: attached_def)
  next
    case (Some g)
    with r have m': "m' = m2\<lparr>sources := (sources m2)(''highlight'' \<mapsto> GeoJsonSource g),
            layers := filter (\<lambda>l. lid l \<noteq> ''highlight-fill'' \<and> lid l \<noteq> ''highlight-outline'')
                        (layers m2) @ [highlightFill, highlightOutline]\<rparr>"
      by (simp add: highlightBody_eq)
    have "getLayer m' ''3d-buildings'' \<or> \<not> getSource m' ''composite''"
      using b2 unfolding m' by (auto simp: getLayer_def getSource_def)
    moreover have "getSource m' ''mapbox-dem''" "terrain m' = Some (''mapbox-dem'', 1.2)"
      using t2 unfolding m' by (auto simp: getSource_def)
    moreover have "sources m' ''highlight'' = Some (GeoJsonSource g)"
      unfolding m' by simp
    moreover have "layers m' = filter (\<lambda>l. lid l \<noteq> ''highlight-fill'' \<and> lid l \<noteq> ''highlight-outline'')
                       (layers m') @ [highlightFill, highlightOutline]"
      unfolding m' by (simp add: highlightFill_def highlightOutline_def)
    ultimately show ?thesis using Some by (simp add: attached_def)
  qed
qed

lemma replay_idem: "replay h m = Inr m' \<Longrightarrow> replay h m' = Inr m'"
  by (rule attached_replay) (rule replay_attached)

lemma getLayer_cong: "layers m' = layers m \<Longrightarrow> getLayer m' i = getLayer m i"
  by (simp add: getLayer_def)

lemma terrain_obs:
  assumes "runDeferred EnsureTerrainBody m = Inr m1"
  shows "layers m1 = layers m" and "i \<noteq> ''mapbox-dem'' \<Longrightarrow> sources m1 i = sources m i"
  using assms by (auto simp: terrainBody_eq)

lemma set_insertBefore: "set (insertBefore b l xs) = insert l (set xs)"
  by (induction xs) auto

lemma buildings_obs:
  assumes "runDeferred Add3DBuildingsBody m = Inr m2"
  shows "sources m2 = sources m"
    and "i \<noteq> ''3d-buildings'' \<Longrightarrow> getLayer m2 i = getLayer m i"
  using assms
  by (auto simp: buildingsBody_eq getLayer_def set_insertBefore buildingsLayer_def
      split: if_splits)

lemma highlight_obs:
  assumes "runDeferred (AddHighlightBody g) m = Inr m3"
  shows "i \<noteq> ''highlight-fill'' \<Longrightarrow> i \<noteq> ''highlight-outline'' \<Longrightarrow> getLayer m3 i = getLayer m i"
  using assms
  by (auto simp: highlightBody_eq getLayer_def highlightFill_def highlightOutline_def)

lemma buildings_succeeds:
  assumes "getLayer m ''waterway-label'' \<or> getLayer m ''3d-buildings'' \<or> \<not> getSource m ''composite''"
  shows "\<exists>m2. runDeferred Add3DBuildingsBody m = Inr m2"
  using assms by (auto simp: buildingsBody_eq)

lemma replay_steps:
  "replay h m = Inr m' \<longleftrightarrow>
     (\<exists>m1 m2. runDeferred EnsureTerrainBody m = Inr m1 \<and>
              runDeferred Add3DBuildingsBody m1 = Inr m2 \<and>
              (case h of None \<Rightarrow> m' = m2 | Some g \<Rightarrow> runDeferred (AddHighlightBody g) m2 = Inr m'))"
  by (cases h) (auto simp: replay_def andThen_def split: sum.splits)

lemma replay_succeeds:
  assumes "getLayer m ''waterway-label'' \<or> getLayer m ''3d-buildings'' \<or> \<not> getSource m ''composite''"
  shows "\<exists>m'. replay h m = Inr m'"
proof -
  obtain m1 where m1: "runDeferred EnsureTerrainBody m = Inr m1"
    by (simp add: terrainBody_eq)
  have "getLayer m1 ''waterway-label'' \<or> getLayer m1 ''3d-buildings'' \<or> \<not> getSource m1 ''composite''"
    using assms terrain_obs[OF m1] by (simp add: getLayer_def getSource_def)
  then obtain m2 where m2: "runDeferred Add3DBuildingsBody m1 = Inr m2"
    using buildings_succeeds by blast
  show ?thesis
  proof (cases h)
    case None
    with m1 m2 show ?thesis by (simp add: replay_steps)
  next
    case (Some g)
    obtain m3 where "runDeferred (AddHighlightBody g) m2 = Inr m3"
      by (simp add: highlightBody_eq)
    with Some m1 m2 show ?thesis by (auto simp: replay_steps)
  qed
qed

lemma replay_other_layers:
  assumes "replay h m = Inr m'" "i \<noteq> ''3d-buildings''" "i \<noteq> ''highlight-fill''"
    "i \<noteq> ''highlight-outline''"
  shows "getLayer m' i \<longleftrightarrow> getLayer m i"
proof -
  from assms(1) obtain m1 m2 where m1: "runDeferred EnsureTerrainBody m = Inr m1"
    and m2: "runDeferred Add3DBuildingsBody m1 = Inr m2"
    and m3: "(case h of None \<Rightarrow> m' = m2 | Some g \<Rightarrow> runDeferred (AddHighlightBody g) m2 = Inr m')"
    unfolding replay_steps by blast
  have "getLayer m1 i = getLayer m i"
    using terrain_obs(1)[OF m1] by (rule getLayer_cong)
  moreover have "getLayer m2 i = getLayer m1 i"
    using buildings_obs(2)[OF m2] assms(2) by simp
  moreover have "getLayer m' i = getLayer m2 i"
    using m3 highlight_obs assms(3,4) by (cases h) auto
  ultimately show ?thesis by simp
qed

lemma replay_no_feature:
  assumes "replay None m = Inr m'"
  shows "sources m' ''highlight'' = sources m ''highlight'' \<and>
         (getLayer m' ''highlight-fill'' \<longleftrightarrow> getLayer m ''highlight-fill'') \<and>
         (getLayer m' ''highlight-outline'' \<longleftrightarrow> getLayer m ''highlight-outline'')"
proof -
  from assms obtain m1 where m1: "runDeferred EnsureTerrainBody m = Inr m1"
    and m2: "runDeferred Add3DBuildingsBody m1 = Inr m'"
    unfolding replay_steps by auto
  have "sources m' ''highlight'' = sources m ''highlight''"
    using terrain_obs(2)[OF m1, of "''highlight''"] buildings_obs(1)[OF m2] by simp
  moreover have "getLayer m' ''highlight-fill'' = getLayer m ''highlight-fill''"
    using buildings_obs(2)[OF m2, of "''highlight-fill''"]
      getLayer_cong[OF terrain_obs(1)[OF m1], of "''highlight-fill''"] by simp
  moreover have "getLayer m' ''highlight-outline'' = getLayer m ''highlight-outline''"
    using buildings_obs(2)[OF m2, of "''highlight-outline''"]
      getLayer_cong[OF terrain_obs(1)[OF m1], of "''highlight-outline''"] by simp
  ultimately show ?thesis by blast
qed

section \<open>The style-ready listener\<close>

text \<open>
  C2 (as amended). When the style-ready listener runs on a loaded style (and the style
  has the \<^verbatim>\<open>waterway-label\<close> layer the building layer is inserted under, or nothing
  to insert), it succeeds, changes nothing but the engine, and what it does to the
  engine is, in this order: the terrain source and setting, the building extrusion
  layer, and the stored highlight feature if there is one. Afterwards all of these are
  in place; with no stored feature the highlight source and layers are as before. The
  3D flow layer is not on the list: \<^verbatim>\<open>flux-3d-particles\<close> is registered afterwards
  exactly if it was registered before, whatever \<^verbatim>\<open>show3D\<close> says.
\<close>

theorem style_handler_replays_attachments:
  assumes "mapRef s = Some m" "isStyleLoaded m"
    "getLayer m ''waterway-label'' \<or> getLayer m ''3d-buildings'' \<or> \<not> getSource m ''composite''"
  shows "\<exists>m'. styleLoadHandler s = Inr (s\<lparr>mapRef := Some m'\<rparr>) \<and>
              replay (highlightDataRef s) m = Inr m' \<and>
              attached (highlightDataRef s) m' \<and>
              (highlightDataRef s = None \<longrightarrow>
                 sources m' ''highlight'' = sources m ''highlight'' \<and>
                 (getLayer m' ''highlight-fill'' \<longleftrightarrow> getLayer m ''highlight-fill'') \<and>
                 (getLayer m' ''highlight-outline'' \<longleftrightarrow> getLayer m ''highlight-outline'')) \<and>
              (getLayer m' ''flux-3d-particles'' \<longleftrightarrow> getLayer m ''flux-3d-particles'')"
proof -
  obtain m' where r: "replay (highlightDataRef s) m = Inr m'"
    using replay_succeeds[OF assms(3)] by blast
  have "styleLoadHandler s = Inr (s\<lparr>mapRef := Some m'\<rparr>)"
    using styleLoadHandler_replay[OF assms(1,2)] r by blast
  moreover have "attached (highlightDataRef s) m'"
    using r by (rule replay_attached)
  moreover have "getLayer m' ''flux-3d-particles'' \<longleftrightarrow> getLayer m ''flux-3d-particles''"
    using r by (rule replay_other_layers) simp_all
  moreover have "highlightDataRef s = None \<longrightarrow>
                 sources m' ''highlight'' = sources m ''highlight'' \<and>
                 (getLayer m' ''highlight-fill'' \<longleftrightarrow> getLayer m ''highlight-fill'') \<and>
                 (getLayer m' ''highlight-outline'' \<longleftrightarrow> getLayer m ''highlight-outline'')"
  proof
    assume "highlightDataRef s = None"
    with r have "replay None m = Inr m'" by simp
    then show "sources m' ''highlight'' = sources m ''highlight'' \<and>
                 (getLayer m' ''highlight-fill'' \<longleftrightarrow> getLayer m ''highlight-fill'') \<and>
                 (getLayer m' ''highlight-outline'' \<longleftrightarrow> getLayer m ''highlight-outline'')"
      by (rule replay_no_feature)
  qed
  ultimately show ?thesis using r by (intro exI[of _ m'] conjI)
qed



lemma fireStyleLoad_handler:
  assumes "mapRef s = Some m" "onceStyleLoad m = []"
  shows "fireStyleLoad s = styleLoadHandler (s\<lparr>mapRef := Some (m\<lparr>styleLoaded := True, onceStyleLoad := []\<rparr>)\<rparr>)"
proof -
  let ?m0 = "m\<lparr>styleLoaded := True, onceStyleLoad := []\<rparr>"
  let ?s0 = "s\<lparr>mapRef := Some ?m0\<rparr>"
  have m0: "mapRef ?s0 = Some ?m0" by simp
  have l0: "isStyleLoaded ?m0"
    by (simp add: isStyleLoaded_def)
  have f: "fireStyleLoad s = bind (styleLoadHandler ?s0) (\<lambda>s1. onMap_do s1 (runAllDeferred []))"
    by (simp add: fireStyleLoad_def assms)
  show ?thesis
  proof (cases "styleLoadHandler ?s0")
    case (Inl x)
    then show ?thesis unfolding f by (simp add: bind_def)
  next
    case (Inr s1)
    then obtain m' where "s1 = ?s0\<lparr>mapRef := Some m'\<rparr>"
      using styleLoadHandler_replay[OF m0 l0] by blast
    then have "mapRef s1 = Some m'" by simp
    then have "onMap_do s1 (runAllDeferred []) = Inr s1"
      by (simp add: onMap_do_def same_map)
    with Inr show ?thesis unfolding f by (simp add: bind_def)
  qed
qed


lemma styleReload_handler:
  assumes "mapRef s = Some m" "onceStyleLoad m = []"
  shows "styleReload sty s =
           styleLoadHandler
             (s\<lparr>mapRef := Some ((setStyle sty m)\<lparr>styleLoaded := True, onceStyleLoad := []\<rparr>)\<rparr>)"
proof -
  let ?s0 = "s\<lparr>mapRef := Some (setStyle sty m)\<rparr>"
  have a: "styleReload sty s = fireStyleLoad ?s0"
    by (simp add: styleReload_def onMap_do_def bind_def assms)
  have b: "mapRef ?s0 = Some (setStyle sty m)" by simp
  have c: "onceStyleLoad (setStyle sty m) = []" by (simp add: setStyle_def assms)
  show ?thesis unfolding a fireStyleLoad_handler[OF b c] by simp
qed

theorem style_handler_replays_attachments_witness:
  "mapRef (sampleGlobe\<lparr>highlightDataRef := Some samplePolygon\<rparr>) = Some sampleMap \<and>
   isStyleLoaded sampleMap \<and> getLayer sampleMap ''waterway-label'' \<and>
   (\<exists>m'. styleLoadHandler (sampleGlobe\<lparr>highlightDataRef := Some samplePolygon\<rparr>) =
            Inr (sampleGlobe\<lparr>highlightDataRef := Some samplePolygon, mapRef := Some m'\<rparr>) \<and>
          attached (Some samplePolygon) m' \<and>
          \<not> getLayer m' ''flux-3d-particles'')"
proof -
  let ?s = "sampleGlobe\<lparr>highlightDataRef := Some samplePolygon\<rparr>"
  have m: "mapRef ?s = Some sampleMap" by (simp add: sampleGlobe_def)
  have l: "isStyleLoaded sampleMap" by (simp add: isStyleLoaded_def sampleMap_def)
  have w: "getLayer sampleMap ''waterway-label''"
    by (simp add: getLayer_def sampleMap_def sampleStyle_def)
  have p: "\<not> getLayer sampleMap ''flux-3d-particles''"
    by (simp add: getLayer_def sampleMap_def sampleStyle_def)
  from style_handler_replays_attachments[OF m l disjI1[OF w]]
  show ?thesis using m l w p by auto
qed

lemma add3DLayer_fresh:
  assumes "mapRef s = Some m" "\<not> getLayer m ''flux-3d-particles''" "getLayer m ''waterway-label''"
  shows "add3DLayer e s =
           Inr (s\<lparr>threeStateRef :=
                    \<lparr>points = Some (samplePoints e (getBounds m) (randomCalls s) 1800),
                     renderersBuilt = renderersBuilt (threeStateRef s) + 1\<rparr>,
                  randomCalls := randomCalls s + 3 * 1800,
                  mapRef := Some (m\<lparr>layers := insertBefore ''waterway-label'' particlesLayer (layers m)\<rparr>)\<rparr>)"
  using assms
  by (simp add: add3DLayer_def Let_def onMap_do_def addLayer_def particlesLayer_def)

lemma sampleMap_layers:
  "getLayer sampleMap ''waterway-label''" "\<not> getLayer sampleMap ''flux-3d-particles''"
  "\<not> getLayer sampleMap ''highlight-fill''" "\<not> getLayer sampleMap ''highlight-outline''"
  "isStyleLoaded sampleMap" "onceStyleLoad sampleMap = []"
  by (simp_all add: getLayer_def sampleMap_def sampleStyle_def isStyleLoaded_def)

lemma sample3D_eq:
  "sample3D =
     sampleGlobe\<lparr>selectedCity := Some ''Paris'', show3D := True,
       threeStateRef := \<lparr>points = Some (samplePoints sampleEnv (getBounds sampleMap) 0 1800),
                         renderersBuilt = 1\<rparr>,
       randomCalls := 5400,
       mapRef := Some (sampleMap\<lparr>layers := insertBefore ''waterway-label'' particlesLayer (layers sampleMap)\<rparr>)\<rparr>"
proof -
  let ?s = "sampleGlobe\<lparr>selectedCity := Some ''Paris'', show3D := True\<rparr>"
  have m: "mapRef ?s = Some sampleMap" by (simp add: sampleGlobe_def)
  show ?thesis
    unfolding sample3D_def add3DLayer_fresh[OF m sampleMap_layers(2) sampleMap_layers(1)]
    by (simp add: sampleGlobe_def)
qed

text \<open>
  In 3D mode with the point-cloud layer registered, a basemap swap followed by the
  style-ready signal leaves the map without that layer: the listener does not put it
  back.
\<close>

theorem style_reload_drops_3d_layer:
  "show3D sample3D \<and>
   (case mapRef sample3D of Some m \<Rightarrow> getLayer m ''flux-3d-particles'' | None \<Rightarrow> False) \<and>
   (case styleReload sampleStyle sample3D of
      Inr s' \<Rightarrow> show3D s' \<and>
                (case mapRef s' of Some m' \<Rightarrow> \<not> getLayer m' ''flux-3d-particles'' | None \<Rightarrow> False)
    | Inl x \<Rightarrow> False)"
proof -
  let ?m3 = "sampleMap\<lparr>layers := insertBefore ''waterway-label'' particlesLayer (layers sampleMap)\<rparr>"
  let ?ready = "(setStyle sampleStyle ?m3)\<lparr>styleLoaded := True, onceStyleLoad := []\<rparr>"
  let ?s0 = "sample3D\<lparr>mapRef := Some ?ready\<rparr>"
  have m3: "mapRef sample3D = Some ?m3" by (simp add: sample3D_eq)
  have sh: "show3D sample3D" by (simp add: sample3D_eq)
  have before: "getLayer ?m3 ''flux-3d-particles''"
    by (simp add: getLayer_def set_insertBefore particlesLayer_def)
  have o: "onceStyleLoad ?m3 = []" by (simp add: sampleMap_def)
  have r0: "mapRef ?s0 = Some ?ready" by simp
  have l0: "isStyleLoaded ?ready" by (simp add: isStyleLoaded_def)
  have w: "getLayer ?ready ''waterway-label''"
    by (simp add: getLayer_def setStyle_def sampleStyle_def)
  have np: "\<not> getLayer ?ready ''flux-3d-particles''"
    by (simp add: getLayer_def setStyle_def sampleStyle_def)
  obtain m' where r: "replay (highlightDataRef ?s0) ?ready = Inr m'"
    using replay_succeeds[OF disjI1[OF w]] by blast
  have h: "styleLoadHandler ?s0 = Inr (?s0\<lparr>mapRef := Some m'\<rparr>)"
    using styleLoadHandler_replay[OF r0 l0] r by blast
  have "getLayer m' ''flux-3d-particles'' = getLayer ?ready ''flux-3d-particles''"
    using r by (rule replay_other_layers) simp_all
  with np have after: "\<not> getLayer m' ''flux-3d-particles''" by simp
  have "styleReload sampleStyle sample3D = Inr (?s0\<lparr>mapRef := Some m'\<rparr>)"
    unfolding styleReload_handler[OF m3 o] using h by simp
  with sh before after m3 show ?thesis by simp
qed

section \<open>Restoring the highlight\<close>

lemma restoreHighlight_loaded:
  assumes "mapRef s = Some m" "isStyleLoaded m" "highlightDataRef s = Some f"
  shows "restoreHighlight s =
           Inr (s\<lparr>mapRef := Some (m\<lparr>sources := (sources m)(''highlight'' \<mapsto> GeoJsonSource f),
                     layers := filter (\<lambda>l. lid l \<noteq> ''highlight-fill'' \<and> lid l \<noteq> ''highlight-outline'')
                                 (layers m) @ [highlightFill, highlightOutline]\<rparr>)\<rparr>)"
  using assms
  by (simp add: restoreHighlight_def addHighlightLayer_def deferOrRun_loaded[OF assms(1,2)]
      highlightBody_eq)

lemma restoreHighlight_none: "highlightDataRef s = None \<Longrightarrow> restoreHighlight s = Inr s"
  by (simp add: restoreHighlight_def)

lemma styleReload_attached:
  assumes "mapRef s = Some m" "onceStyleLoad m = []"
    "''waterway-label'' \<in> lid ` set (styleLayers sty) \<or>
     ''3d-buildings'' \<in> lid ` set (styleLayers sty) \<or> styleSources sty ''composite'' = None"
  shows "\<exists>m'. styleReload sty s = Inr (s\<lparr>mapRef := Some m'\<rparr>) \<and>
              attached (highlightDataRef s) m'"
proof -
  let ?ready = "(setStyle sty m)\<lparr>styleLoaded := True, onceStyleLoad := []\<rparr>"
  let ?s0 = "s\<lparr>mapRef := Some ?ready\<rparr>"
  have r0: "mapRef ?s0 = Some ?ready" by simp
  have l0: "isStyleLoaded ?ready" by (simp add: isStyleLoaded_def)
  have w: "getLayer ?ready ''waterway-label'' \<or> getLayer ?ready ''3d-buildings'' \<or>
           \<not> getSource ?ready ''composite''"
    using assms(3) by (simp add: getLayer_def getSource_def setStyle_def)
  obtain m' where r: "replay (highlightDataRef ?s0) ?ready = Inr m'"
    using replay_succeeds[OF w] by blast
  have "styleLoadHandler ?s0 = Inr (?s0\<lparr>mapRef := Some m'\<rparr>)"
    using styleLoadHandler_replay[OF r0 l0] r by blast
  then have "styleReload sty s = Inr (s\<lparr>mapRef := Some m'\<rparr>)"
    unfolding styleReload_handler[OF assms(1,2)] by simp
  moreover have "attached (highlightDataRef s) m'"
    using replay_attached[OF r] by simp
  ultimately show ?thesis by blast
qed

text \<open>
  C7. Restoring the highlight from the stored feature. For a stored feature \<open>f\<close> and a
  loaded style, \<^verbatim>\<open>restoreHighlight\<close> succeeds and leaves the highlight source holding
  \<open>f\<close> with the fill and outline layers (both drawn from that source) on top of the
  other layers; the stored feature and the list of boundary requests are as before, so
  no second fetch is made. With no stored feature it changes nothing. The same holds for
  the whole reload - basemap swap, style-ready signal, listener - when no deferred
  callback is waiting and the new style has the layer the building layer goes under.
\<close>

theorem restore_reattaches_cached_feature:
  "(mapRef s = Some m \<and> isStyleLoaded m \<and> highlightDataRef s = Some f \<longrightarrow>
      (\<exists>s' m'. restoreHighlight s = Inr s' \<and> mapRef s' = Some m' \<and>
         sources m' ''highlight'' = Some (GeoJsonSource f) \<and>
         layers m' = filter (\<lambda>l. lid l \<noteq> ''highlight-fill'' \<and> lid l \<noteq> ''highlight-outline'')
                       (layers m) @ [highlightFill, highlightOutline] \<and>
         highlightDataRef s' = Some f \<and> boundaryFetches s' = boundaryFetches s)) \<and>
   (highlightDataRef s = None \<longrightarrow> restoreHighlight s = Inr s) \<and>
   (mapRef s = Some m \<and> onceStyleLoad m = [] \<and> highlightDataRef s = Some f \<and>
    (''waterway-label'' \<in> lid ` set (styleLayers sty) \<or>
     ''3d-buildings'' \<in> lid ` set (styleLayers sty) \<or> styleSources sty ''composite'' = None) \<longrightarrow>
      (\<exists>s' m'. styleReload sty s = Inr s' \<and> mapRef s' = Some m' \<and>
         sources m' ''highlight'' = Some (GeoJsonSource f) \<and>
         layers m' = filter (\<lambda>l. lid l \<noteq> ''highlight-fill'' \<and> lid l \<noteq> ''highlight-outline'')
                       (layers m') @ [highlightFill, highlightOutline] \<and>
         highlightDataRef s' = Some f \<and> boundaryFetches s' = boundaryFetches s))"
proof (intro conjI impI)
  assume a: "mapRef s = Some m \<and> isStyleLoaded m \<and> highlightDataRef s = Some f"
  then have "restoreHighlight s =
           Inr (s\<lparr>mapRef := Some (m\<lparr>sources := (sources m)(''highlight'' \<mapsto> GeoJsonSource f),
                     layers := filter (\<lambda>l. lid l \<noteq> ''highlight-fill'' \<and> lid l \<noteq> ''highlight-outline'')
                                 (layers m) @ [highlightFill, highlightOutline]\<rparr>)\<rparr>)"
    using restoreHighlight_loaded by blast
  with a show "\<exists>s' m'. restoreHighlight s = Inr s' \<and> mapRef s' = Some m' \<and>
         sources m' ''highlight'' = Some (GeoJsonSource f) \<and>
         layers m' = filter (\<lambda>l. lid l \<noteq> ''highlight-fill'' \<and> lid l \<noteq> ''highlight-outline'')
                       (layers m) @ [highlightFill, highlightOutline] \<and>
         highlightDataRef s' = Some f \<and> boundaryFetches s' = boundaryFetches s"
    by simp
next
  assume "highlightDataRef s = None"
  then show "restoreHighlight s = Inr s" by (rule restoreHighlight_none)
next
  assume a: "mapRef s = Some m \<and> onceStyleLoad m = [] \<and> highlightDataRef s = Some f \<and>
    (''waterway-label'' \<in> lid ` set (styleLayers sty) \<or>
     ''3d-buildings'' \<in> lid ` set (styleLayers sty) \<or> styleSources sty ''composite'' = None)"
  then obtain m' where r: "styleReload sty s = Inr (s\<lparr>mapRef := Some m'\<rparr>)"
    and at: "attached (highlightDataRef s) m'"
    using styleReload_attached[of s m sty] by blast
  from at a have "sources m' ''highlight'' = Some (GeoJsonSource f)"
    and "layers m' = filter (\<lambda>l. lid l \<noteq> ''highlight-fill'' \<and> lid l \<noteq> ''highlight-outline'')
                       (layers m') @ [highlightFill, highlightOutline]"
    by (simp_all add: attached_def)
  with r a show "\<exists>s' m'. styleReload sty s = Inr s' \<and> mapRef s' = Some m' \<and>
         sources m' ''highlight'' = Some (GeoJsonSource f) \<and>
         layers m' = filter (\<lambda>l. lid l \<noteq> ''highlight-fill'' \<and> lid l \<noteq> ''highlight-outline'')
                       (layers m') @ [highlightFill, highlightOutline] \<and>
         highlightDataRef s' = Some f \<and> boundaryFetches s' = boundaryFetches s"
    by simp
qed


theorem restore_reattaches_cached_feature_witness:
  "mapRef (sampleGlobe\<lparr>highlightDataRef := Some samplePolygon\<rparr>) = Some sampleMap \<and>
   isStyleLoaded sampleMap \<and> onceStyleLoad sampleMap = [] \<and>
   ''waterway-label'' \<in> lid ` set (styleLayers sampleStyle) \<and>
   (\<exists>s' m'. restoreHighlight (sampleGlobe\<lparr>highlightDataRef := Some samplePolygon\<rparr>) = Inr s' \<and>
      mapRef s' = Some m' \<and> sources m' ''highlight'' = Some (GeoJsonSource samplePolygon) \<and>
      boundaryFetches s' = []) \<and>
   (\<exists>s' m'. styleReload sampleStyle (sampleGlobe\<lparr>highlightDataRef := Some samplePolygon\<rparr>) = Inr s' \<and>
      mapRef s' = Some m' \<and> sources m' ''highlight'' = Some (GeoJsonSource samplePolygon) \<and>
      boundaryFetches s' = []) \<and>
   restoreHighlight sampleGlobe = Inr sampleGlobe"
proof -
  let ?s = "sampleGlobe\<lparr>highlightDataRef := Some samplePolygon\<rparr>"
  have m: "mapRef ?s = Some sampleMap" by (simp add: sampleGlobe_def)
  have h: "highlightDataRef ?s = Some samplePolygon" by simp
  have b: "boundaryFetches ?s = []" by (simp add: sampleGlobe_def)
  have w: "''waterway-label'' \<in> lid ` set (styleLayers sampleStyle)"
    by (simp add: sampleStyle_def)
  have n: "highlightDataRef sampleGlobe = None" by (simp add: sampleGlobe_def)
  note t = restore_reattaches_cached_feature[of ?s sampleMap samplePolygon sampleStyle]
  note u = restore_reattaches_cached_feature[of sampleGlobe sampleMap samplePolygon sampleStyle]
  have 1: "\<exists>s' m'. restoreHighlight ?s = Inr s' \<and>
      mapRef s' = Some m' \<and> sources m' ''highlight'' = Some (GeoJsonSource samplePolygon) \<and>
      boundaryFetches s' = []"
    using t m h b sampleMap_layers(5) by fastforce
  have 2: "\<exists>s' m'. styleReload sampleStyle ?s = Inr s' \<and>
      mapRef s' = Some m' \<and> sources m' ''highlight'' = Some (GeoJsonSource samplePolygon) \<and>
      boundaryFetches s' = []"
    using t m h b w sampleMap_layers(6) by fastforce
  have 3: "restoreHighlight sampleGlobe = Inr sampleGlobe"
    using u n by blast
  show ?thesis using m w 1 2 3 sampleMap_layers(5,6) by blast
qed

section \<open>Attaching what is already there\<close>

lemma ensureTerrain_existing:
  assumes "mapRef s = Some m" "getSource m ''mapbox-dem''"
  shows "\<exists>m'. ensureTerrain s = Inr (s\<lparr>mapRef := Some m'\<rparr>) \<and>
              sources m' = sources m \<and> layers m' = layers m"
proof (cases "isStyleLoaded m")
  case True
  have "ensureTerrain s = Inr (s\<lparr>mapRef := Some (m\<lparr>terrain := Some (''mapbox-dem'', 1.2)\<rparr>)\<rparr>)"
    using assms True
    by (simp add: ensureTerrain_def deferOrRun_loaded[OF assms(1)] terrainBody_eq)
  then show ?thesis by (intro exI[of _ "m\<lparr>terrain := Some (''mapbox-dem'', 1.2)\<rparr>"]) simp
next
  case False
  have "ensureTerrain s =
          Inr (s\<lparr>mapRef := Some (m\<lparr>onceStyleLoad := onceStyleLoad m @ [EnsureTerrainBody]\<rparr>)\<rparr>)"
    using assms False by (simp add: ensureTerrain_def deferOrRun_waiting[OF assms(1)])
  then show ?thesis
    by (intro exI[of _ "m\<lparr>onceStyleLoad := onceStyleLoad m @ [EnsureTerrainBody]\<rparr>"]) simp
qed

lemma ensureTerrain_attached:
  assumes "mapRef s = Some m" "getSource m ''mapbox-dem''" "isStyleLoaded m"
    "terrain m = Some (''mapbox-dem'', 1.2)"
  shows "ensureTerrain s = Inr s"
  using assms
  by (simp add: ensureTerrain_def deferOrRun_loaded[OF assms(1,3)] terrain_attached same_map)

lemma add3DBuildings_existing:
  assumes "mapRef s = Some m" "getLayer m ''3d-buildings''"
  shows "\<exists>m'. add3DBuildings s = Inr (s\<lparr>mapRef := Some m'\<rparr>) \<and>
              sources m' = sources m \<and> layers m' = layers m"
proof (cases "isStyleLoaded m")
  case True
  have "add3DBuildings s = Inr (s\<lparr>mapRef := Some m\<rparr>)"
    using assms True
    by (simp add: add3DBuildings_def deferOrRun_loaded[OF assms(1)] buildings_attached)
  then show ?thesis by (intro exI[of _ m]) simp
next
  case False
  have "add3DBuildings s =
          Inr (s\<lparr>mapRef := Some (m\<lparr>onceStyleLoad := onceStyleLoad m @ [Add3DBuildingsBody]\<rparr>)\<rparr>)"
    using assms False by (simp add: add3DBuildings_def deferOrRun_waiting[OF assms(1)])
  then show ?thesis
    by (intro exI[of _ "m\<lparr>onceStyleLoad := onceStyleLoad m @ [Add3DBuildingsBody]\<rparr>"]) simp
qed

lemma add3DBuildings_attached:
  assumes "mapRef s = Some m" "getLayer m ''3d-buildings''" "isStyleLoaded m"
  shows "add3DBuildings s = Inr s"
  using assms
  by (simp add: add3DBuildings_def deferOrRun_loaded[OF assms(1,3)] buildings_attached same_map)

lemma add3DLayer_existing:
  assumes "mapRef s = Some m" "getLayer m ''flux-3d-particles''"
  shows "add3DLayer e s = Inr s"
  using assms by (simp add: add3DLayer_def)

lemma remove3DLayer_absent:
  assumes "mapRef s = Some m" "\<not> getLayer m ''flux-3d-particles''"
  shows "remove3DLayer s = Inr s"
  using assms by (simp add: remove3DLayer_def onMap_do_def removeLayerIfPresent_def same_map)

lemma replay_styleLoaded: "replay h m = Inr m' \<Longrightarrow> isStyleLoaded m' = isStyleLoaded m"
proof -
  assume "replay h m = Inr m'"
  then obtain m1 m2 where m1: "runDeferred EnsureTerrainBody m = Inr m1"
    and m2: "runDeferred Add3DBuildingsBody m1 = Inr m2"
    and m3: "(case h of None \<Rightarrow> m' = m2 | Some g \<Rightarrow> runDeferred (AddHighlightBody g) m2 = Inr m')"
    unfolding replay_steps by blast
  have "isStyleLoaded m' = isStyleLoaded m2"
    using m3 runDeferred_styleLoaded by (cases h) auto
  then show ?thesis
    using runDeferred_styleLoaded[OF m1] runDeferred_styleLoaded[OF m2] by simp
qed

lemma styleLoadHandler_idem:
  assumes "mapRef s = Some m" "isStyleLoaded m" "styleLoadHandler s = Inr s1"
  shows "styleLoadHandler s1 = Inr s1"
proof -
  from assms obtain m' where r: "replay (highlightDataRef s) m = Inr m'"
    and s1: "s1 = s\<lparr>mapRef := Some m'\<rparr>"
    using styleLoadHandler_replay[OF assms(1,2)] by blast
  have m1: "mapRef s1 = Some m'" and h1: "highlightDataRef s1 = highlightDataRef s"
    by (simp_all add: s1)
  have l1: "isStyleLoaded m'" using replay_styleLoaded[OF r] assms(2) by simp
  have "replay (highlightDataRef s1) m' = Inr m'"
    unfolding h1 using r by (rule replay_idem)
  then have "styleLoadHandler s1 = Inr (s1\<lparr>mapRef := Some m'\<rparr>)"
    using styleLoadHandler_replay[OF m1 l1] by blast
  then show ?thesis by (simp add: same_map[OF m1])
qed

text \<open>
  C9. Attaching an id that exists is a no-op and not an error. For every state with a
  map: if the terrain source exists, \<^verbatim>\<open>ensureTerrain\<close> succeeds and leaves the map's
  sources and layers as they are (it applies the terrain setting again, so with the
  setting in place and the style loaded the whole state is unchanged); if the building
  layer exists, \<^verbatim>\<open>add3DBuildings\<close> succeeds and leaves sources and layers as they are
  (the whole state, when the style is loaded); if the 3D custom layer is registered,
  \<^verbatim>\<open>add3DLayer\<close> returns the state unchanged; if it is not registered,
  \<^verbatim>\<open>remove3DLayer\<close> returns the state unchanged. Replaying the listener's list is
  idempotent: run on its own result, the listener succeeds and changes nothing.
\<close>

theorem attaching_twice_is_noop:
  assumes "mapRef s = Some m"
  shows "(getSource m ''mapbox-dem'' \<longrightarrow>
            (\<exists>m'. ensureTerrain s = Inr (s\<lparr>mapRef := Some m'\<rparr>) \<and>
                   sources m' = sources m \<and> layers m' = layers m)) \<and>
         (getSource m ''mapbox-dem'' \<and> isStyleLoaded m \<and> terrain m = Some (''mapbox-dem'', 1.2) \<longrightarrow>
            ensureTerrain s = Inr s) \<and>
         (getLayer m ''3d-buildings'' \<longrightarrow>
            (\<exists>m'. add3DBuildings s = Inr (s\<lparr>mapRef := Some m'\<rparr>) \<and>
                   sources m' = sources m \<and> layers m' = layers m)) \<and>
         (getLayer m ''3d-buildings'' \<and> isStyleLoaded m \<longrightarrow> add3DBuildings s = Inr s) \<and>
         (getLayer m ''flux-3d-particles'' \<longrightarrow> add3DLayer e s = Inr s) \<and>
         (\<not> getLayer m ''flux-3d-particles'' \<longrightarrow> remove3DLayer s = Inr s) \<and>
         (isStyleLoaded m \<and> styleLoadHandler s = Inr s1 \<longrightarrow> styleLoadHandler s1 = Inr s1)"
  using ensureTerrain_existing[OF assms] ensureTerrain_attached[OF assms]
    add3DBuildings_existing[OF assms] add3DBuildings_attached[OF assms]
    add3DLayer_existing[OF assms] remove3DLayer_absent[OF assms]
    styleLoadHandler_idem[OF assms]
  by blast

lemma sampleFull_facts:
  "mapRef sampleFull = Some (sampleMap
          \<lparr>sources := [''composite'' \<mapsto> VectorTiles, ''mapbox-dem'' \<mapsto> RasterDem],
           layers := [\<lparr>lid = ''land'', lkind = BaseLayer, lsource = None\<rparr>,
                      buildingsLayer, particlesLayer,
                      \<lparr>lid = ''waterway-label'', lkind = BaseLayer, lsource = Some ''composite''\<rparr>],
           terrain := Some (''mapbox-dem'', 1.2)\<rparr>)"
  by (simp add: sampleFull_def)

theorem attaching_twice_is_noop_witness:
  "(\<exists>m. mapRef sampleFull = Some m \<and> getSource m ''mapbox-dem'' \<and> isStyleLoaded m \<and>
        terrain m = Some (''mapbox-dem'', 1.2) \<and> getLayer m ''3d-buildings'' \<and>
        getLayer m ''flux-3d-particles'') \<and>
   ensureTerrain sampleFull = Inr sampleFull \<and>
   add3DBuildings sampleFull = Inr sampleFull \<and>
   add3DLayer sampleEnv sampleFull = Inr sampleFull \<and>
   (\<exists>m. mapRef sampleGlobe = Some m \<and> \<not> getLayer m ''flux-3d-particles'') \<and>
   remove3DLayer sampleGlobe = Inr sampleGlobe"
proof -
  let ?m = "sampleMap
          \<lparr>sources := [''composite'' \<mapsto> VectorTiles, ''mapbox-dem'' \<mapsto> RasterDem],
           layers := [\<lparr>lid = ''land'', lkind = BaseLayer, lsource = None\<rparr>,
                      buildingsLayer, particlesLayer,
                      \<lparr>lid = ''waterway-label'', lkind = BaseLayer, lsource = Some ''composite''\<rparr>],
           terrain := Some (''mapbox-dem'', 1.2)\<rparr>"
  have f: "getSource ?m ''mapbox-dem''" "isStyleLoaded ?m" "terrain ?m = Some (''mapbox-dem'', 1.2)"
    "getLayer ?m ''3d-buildings''" "getLayer ?m ''flux-3d-particles''"
    by (simp_all add: getSource_def getLayer_def isStyleLoaded_def sampleMap_def
        buildingsLayer_def particlesLayer_def)
  have g: "mapRef sampleGlobe = Some sampleMap" by (simp add: sampleGlobe_def)
  from attaching_twice_is_noop[OF sampleFull_facts, of sampleEnv]
       attaching_twice_is_noop[OF g, of sampleEnv]
  show ?thesis using f g sampleFull_facts sampleMap_layers(2) by blast
qed

section \<open>Clearing the selection\<close>

lemma resetGlobe_eq:
  assumes "mapRef s = Some m"
  shows "resetGlobe s =
           Inr (s\<lparr>mapRef := Some (m\<lparr>sources := (sources m)(''highlight'' := None),
                       layers := filter (\<lambda>l. lid l \<noteq> ''highlight-fill'' \<and> lid l \<noteq> ''highlight-outline'' \<and>
                                            lid l \<noteq> ''flux-3d-particles'') (layers m),
                       cam := (cam m)\<lparr>center := (0, 20), zoom := 1.5, pitch := 0, bearing := 0\<rparr>\<rparr>),
                  markerRef := map_option (\<lambda>mk. mk\<lparr>onMap := False\<rparr>) (markerRef s),
                  selectedCity := None,
                  results := None\<rparr>)"
  using assms
  by (cases s; cases m)
     (simp add: resetGlobe_def bind_def onMap_do_def flyTo_def Let_def andThen_def
        removeLayerIfPresent_eq removeSourceIfPresent_eq remove3DLayer_def conj_commute conj_left_commute)

lemma geocoderResult_loaded:
  assumes "mapRef s = Some m" "isStyleLoaded m"
  shows "geocoderResult name coords (BoundaryReply (Some g)) s =
           Inr (s\<lparr>mapRef := Some (m\<lparr>sources := (sources m)(''highlight'' \<mapsto> GeoJsonSource g),
                       layers := filter (\<lambda>l. lid l \<noteq> ''highlight-fill'' \<and> lid l \<noteq> ''highlight-outline'')
                                   (layers m) @ [highlightFill, highlightOutline],
                       cam := (cam m)\<lparr>center := coords, zoom := 11, pitch := 60, bearing := 30\<rparr>\<rparr>),
                  markerRef := Some \<lparr>lngLat = coords, onMap = True\<rparr>,
                  highlightDataRef := Some g,
                  rotatingRef := False,
                  selectedCity := Some name,
                  boundaryFetches := boundaryFetches s @ [name]\<rparr>)"
proof -
  let ?s2 = "s\<lparr>selectedCity := Some name, rotatingRef := False,
              markerRef := Some \<lparr>lngLat = coords, onMap = True\<rparr>,
              boundaryFetches := boundaryFetches s @ [name], highlightDataRef := Some g\<rparr>"
  have m2: "mapRef ?s2 = Some m" using assms by simp
  have "addHighlightLayer (Some g) ?s2 =
          Inr (?s2\<lparr>mapRef := Some (m\<lparr>sources := (sources m)(''highlight'' \<mapsto> GeoJsonSource g),
                     layers := filter (\<lambda>l. lid l \<noteq> ''highlight-fill'' \<and> lid l \<noteq> ''highlight-outline'')
                                 (layers m) @ [highlightFill, highlightOutline]\<rparr>)\<rparr>)"
    using assms by (simp add: addHighlightLayer_def deferOrRun_loaded[OF m2 assms(2)] highlightBody_eq)
  then show ?thesis
    by (cases s; cases m)
       (simp add: geocoderResult_def fetchAndDrawBoundary_def Let_def onMap_do_def flyTo_def)
qed


lemma attached_layers:
  assumes "attached (Some g) m"
  shows "getLayer m ''highlight-fill''" "getLayer m ''highlight-outline''"
    "sources m ''highlight'' = Some (GeoJsonSource g)"
proof -
  from assms have l: "layers m = filter (\<lambda>l. lid l \<noteq> ''highlight-fill'' \<and> lid l \<noteq> ''highlight-outline'')
                       (layers m) @ [highlightFill, highlightOutline]"
    and s: "sources m ''highlight'' = Some (GeoJsonSource g)"
    by (simp_all add: attached_def)
  have "highlightFill \<in> set (layers m)" "highlightOutline \<in> set (layers m)"
    by (subst l, simp)+
  then show "getLayer m ''highlight-fill''" "getLayer m ''highlight-outline''"
    by (force simp: getLayer_def highlightFill_def highlightOutline_def)+
  show "sources m ''highlight'' = Some (GeoJsonSource g)" by (rule s)
qed

lemma resetGlobe_alt_clears_feature:
  "resetGlobe_alt s = Inr s' \<Longrightarrow> highlightDataRef s' = None"
  by (auto simp: resetGlobe_alt_def Let_def bind_def onMap_do_def
      split: option.splits sum.splits if_splits)

lemma resetGlobe_keeps_feature:
  "resetGlobe s = Inr s' \<Longrightarrow> highlightDataRef s' = highlightDataRef s"
  by (auto simp: resetGlobe_def remove3DLayer_def Let_def bind_def onMap_do_def
      split: option.splits sum.splits if_splits)

text \<open>
  C1 (what the 3D-capable version does). Paris is selected and its boundary polygon is
  stored and shown. \<^verbatim>\<open>resetGlobe\<close> clears the selection and removes the highlight
  layers and source from the map, but the stored feature is still there; so after the
  next basemap swap the style-ready listener's \<^verbatim>\<open>restoreHighlight\<close> puts the fill
  and outline layers of the deselected city back on the map. The older version of
  \<^verbatim>\<open>resetGlobe\<close> (third document of \<^verbatim>\<open>src/unnamed/part_000\<close>) has the line
  \<^verbatim>\<open>highlightDataRef.current = null\<close> that this one lacks.
\<close>

theorem reset_keeps_stored_feature:
  "highlightDataRef sampleSelected = Some samplePolygon \<and>
   (case resetGlobe sampleSelected of
      Inr s1 \<Rightarrow>
        selectedCity s1 = None \<and> highlightDataRef s1 = Some samplePolygon \<and>
        (case mapRef s1 of
           Some m1 \<Rightarrow> \<not> getLayer m1 ''highlight-fill'' \<and> \<not> getLayer m1 ''highlight-outline'' \<and>
                      \<not> getSource m1 ''highlight''
         | None \<Rightarrow> False) \<and>
        (case styleReload sampleStyle s1 of
           Inr s2 \<Rightarrow>
             (case mapRef s2 of
                Some m2 \<Rightarrow> getLayer m2 ''highlight-fill'' \<and> getLayer m2 ''highlight-outline'' \<and>
                           sources m2 ''highlight'' = Some (GeoJsonSource samplePolygon)
              | None \<Rightarrow> False)
         | Inl x \<Rightarrow> False)
    | Inl x \<Rightarrow> False)"
proof -
  have g: "mapRef sampleGlobe = Some sampleMap" by (simp add: sampleGlobe_def)
  obtain mSel where sel: "mapRef sampleSelected = Some mSel"
    and once: "onceStyleLoad mSel = []"
    and hd: "highlightDataRef sampleSelected = Some samplePolygon"
    unfolding sampleSelected_def geocoderResult_loaded[OF g sampleMap_layers(5)]
    by (simp add: sampleMap_def)
  let ?m1 = "mSel\<lparr>sources := (sources mSel)(''highlight'' := None),
                   layers := filter (\<lambda>l. lid l \<noteq> ''highlight-fill'' \<and> lid l \<noteq> ''highlight-outline'' \<and>
                                        lid l \<noteq> ''flux-3d-particles'') (layers mSel),
                   cam := (cam mSel)\<lparr>center := (0, 20), zoom := 1.5, pitch := 0, bearing := 0\<rparr>\<rparr>"
  let ?s1 = "sampleSelected\<lparr>mapRef := Some ?m1,
                  markerRef := map_option (\<lambda>mk. mk\<lparr>onMap := False\<rparr>) (markerRef sampleSelected),
                  selectedCity := None,
                  results := None\<rparr>"
  have r: "resetGlobe sampleSelected = Inr ?s1" by (rule resetGlobe_eq[OF sel])
  have m1: "mapRef ?s1 = Some ?m1" by simp
  have o1: "onceStyleLoad ?m1 = []" using once by simp
  have gone: "\<not> getLayer ?m1 ''highlight-fill''" "\<not> getLayer ?m1 ''highlight-outline''"
    "\<not> getSource ?m1 ''highlight''"
    by (auto simp: getLayer_def getSource_def)
  have w: "''waterway-label'' \<in> lid ` set (styleLayers sampleStyle) \<or>
     ''3d-buildings'' \<in> lid ` set (styleLayers sampleStyle) \<or> styleSources sampleStyle ''composite'' = None"
    by (simp add: sampleStyle_def)
  obtain m2 where rl: "styleReload sampleStyle ?s1 = Inr (?s1\<lparr>mapRef := Some m2\<rparr>)"
    and at: "attached (highlightDataRef ?s1) m2"
    using styleReload_attached[OF m1 o1 w] by blast
  have at': "attached (Some samplePolygon) m2" using at hd by simp
  note again = attached_layers[OF at']
  show ?thesis
    unfolding r using hd gone again rl by simp
qed

section \<open>Re-running the simulation\<close>

lemma runSimulation_2D:
  assumes "\<not> noCity s" "\<not> show3D s"
  shows "runSimulation e (FluxReply d) s =
           (init2DArrows e (s\<lparr>loading := True, results := Some d,
                               windSeriesRef := (case wind_series d of None \<Rightarrow> [] | Some ws \<Rightarrow> ws)\<rparr>))
             \<lparr>loading := False\<rparr>"
  using assms by (auto simp: runSimulation_def Let_def)

lemma init2DArrows_eq:
  assumes "mapRef s = Some m" "canvasRef s = Some c"
  shows "init2DArrows e s =
           draw (show3D s) e
             (s\<lparr>canvasRef := Some (resizeCanvas e c),
                particleArray := seedParticles (random e) (getBounds m) (randomCalls s) 200,
                randomCalls := randomCalls s + 3 * 200,
                drawClosures := drawClosures s @ [show3D s]\<rparr>)"
  using assms by (simp add: init2DArrows_def Let_def)

lemma draw_other_fields:
  "drawClosures (draw cap e s) = drawClosures s \<and> windSeriesRef (draw cap e s) = windSeriesRef s \<and>
   mapRef (draw cap e s) = mapRef s \<and> threeStateRef (draw cap e s) = threeStateRef s \<and>
   show3D (draw cap e s) = show3D s \<and> selectedCity (draw cap e s) = selectedCity s"
  by (simp add: draw_def Let_def requestAnimationFrame_def split: option.splits prod.splits)

lemma length_drawParticles:
  "length (fst (snd (drawParticles e m h bl ds k ps))) = length ps"
proof (induction ps arbitrary: k)
  case Nil
  show ?case by simp
next
  case (Cons p ps)
  obtain sg p' k1 where d: "drawParticle e m h bl ds k p = (sg, p', k1)"
    by (cases "drawParticle e m h bl ds k p") auto
  obtain sgs ps' k2 where r: "drawParticles e m h bl ds k1 ps = (sgs, ps', k2)"
    by (cases "drawParticles e m h bl ds k1 ps") auto
  from Cons[of k1] r have "length ps' = length ps" by simp
  then show ?case using d r by simp
qed

lemma draw_length:
  "length (particleArray (draw cap e s)) = length (particleArray s)"
proof (cases "mapRef s")
  case None
  then show ?thesis by (simp add: draw_def)
next
  case (Some m)
  show ?thesis
  proof (cases "canvasRef s")
    case None
    with Some show ?thesis by (simp add: draw_def)
  next
    case c: (Some c)
    show ?thesis
    proof (cases "cap \<or> windSeriesRef s = []")
      case True
      then show ?thesis using draw_idle(1)[OF Some c] by simp
    next
      case False
      then show ?thesis using draw_active(1)[OF Some c] by (simp add: length_drawParticles)
    qed
  qed
qed

lemma draw_forgets_nothing_else:
  "particleArray (draw cap e (s\<lparr>loading := b\<rparr>)) = particleArray (draw cap e s)"
  by (simp add: draw_def Let_def requestAnimationFrame_def currentFrame_def
      split: option.splits prod.splits)


lemma runSimulation_2D_eq:
  assumes "\<not> noCity s" "\<not> show3D s" "mapRef s = Some m" "canvasRef s = Some c"
  shows "runSimulation e (FluxReply d) s =
           (draw False e
              (s\<lparr>loading := True, results := Some d,
                 windSeriesRef := (case wind_series d of None \<Rightarrow> [] | Some ws \<Rightarrow> ws),
                 canvasRef := Some (resizeCanvas e c),
                 particleArray := seedParticles (random e) (getBounds m) (randomCalls s) 200,
                 randomCalls := randomCalls s + 3 * 200,
                 drawClosures := drawClosures s @ [False]\<rparr>))\<lparr>loading := False\<rparr>"
proof -
  let ?s2 = "s\<lparr>loading := True, results := Some d,
               windSeriesRef := (case wind_series d of None \<Rightarrow> [] | Some ws \<Rightarrow> ws)\<rparr>"
  have "mapRef ?s2 = Some m" "canvasRef ?s2 = Some c" using assms by simp_all
  from init2DArrows_eq[OF this, of e] assms(2) show ?thesis
    unfolding runSimulation_2D[OF assms(1,2)] by simp
qed

lemma runSimulation_3D_eq:
  assumes "\<not> noCity s" "show3D s" "mapRef s = Some m" "getLayer m ''waterway-label''"
  shows "runSimulation e (FluxReply d) s =
           s\<lparr>loading := False, results := Some d,
             windSeriesRef := (case wind_series d of None \<Rightarrow> [] | Some ws \<Rightarrow> ws),
             threeStateRef :=
               \<lparr>points = Some (samplePoints e (getBounds m) (randomCalls s) 1800),
                renderersBuilt = renderersBuilt (threeStateRef s) + 1\<rparr>,
             randomCalls := randomCalls s + 3 * 1800,
             mapRef := Some (m\<lparr>layers := insertBefore ''waterway-label'' particlesLayer
                                 (filter (\<lambda>l. lid l \<noteq> ''flux-3d-particles'') (layers m))\<rparr>)\<rparr>"
proof -
  let ?s2 = "s\<lparr>loading := True, results := Some d,
               windSeriesRef := (case wind_series d of None \<Rightarrow> [] | Some ws \<Rightarrow> ws)\<rparr>"
  let ?m1 = "m\<lparr>layers := filter (\<lambda>l. lid l \<noteq> ''flux-3d-particles'') (layers m)\<rparr>"
  have r: "remove3DLayer ?s2 = Inr (?s2\<lparr>mapRef := Some ?m1\<rparr>)"
    using assms(3) by (simp add: remove3DLayer_def onMap_do_def removeLayerIfPresent_eq)
  have m1: "mapRef (?s2\<lparr>mapRef := Some ?m1\<rparr>) = Some ?m1" by simp
  have np: "\<not> getLayer ?m1 ''flux-3d-particles''" by (auto simp: getLayer_def)
  have wl: "getLayer ?m1 ''waterway-label''" using assms(4) by (auto simp: getLayer_def)
  note a = add3DLayer_fresh[OF m1 np wl, of e]
  have "runSimulation e (FluxReply d) s =
          (case bind (remove3DLayer ?s2) (add3DLayer e) of
             Inl (err, s3) \<Rightarrow> s3\<lparr>loading := False\<rparr>
           | Inr s3 \<Rightarrow> s3\<lparr>loading := False\<rparr>)"
    using assms(1,2) by (auto simp: runSimulation_def Let_def)
  also have "bind (remove3DLayer ?s2) (add3DLayer e) = add3DLayer e (?s2\<lparr>mapRef := Some ?m1\<rparr>)"
    unfolding r by (simp add: bind_def)
  finally show ?thesis
    unfolding a by (cases s) (simp add: getBounds_def)
qed

lemma seedParticles_pos:
  "0 < n \<Longrightarrow> seedParticles rnd b k n =
     \<lparr>lon = spawnLon b (rnd k), lat = spawnLat b (rnd (k + 1)), age = rnd (k + 2) * 200\<rparr>
       # seedParticles rnd b (k + 3) (n - 1)"
  by (cases n) simp_all

lemma drawParticles_hd_age:
  "age (hd (fst (snd (drawParticles e m h bl ds k (p # ps))))) =
     (if age p + 1 > 300 then 0 else age p + 1)"
proof -
  obtain sg p' k1 where d: "drawParticle e m h bl ds k p = (sg, p', k1)"
    by (cases "drawParticle e m h bl ds k p") auto
  obtain sgs ps' k2 where r: "drawParticles e m h bl ds k1 ps = (sgs, ps', k2)"
    by (cases "drawParticles e m h bl ds k1 ps") auto
  have "age p' = (if age p + 1 > 300 then 0 else age p + 1)"
    using d by (auto simp: drawParticle_def Let_def split: if_splits)
  then show ?thesis using d r by simp
qed

lemma first_age_after_run:
  assumes "\<not> noCity s" "\<not> show3D s" "mapRef s = Some m" "canvasRef s = Some c"
    "wind_series d = Some (f # fs)"
  shows "age (hd (particleArray (runSimulation e (FluxReply d) s))) =
           (if random e (randomCalls s + 2) * 200 + 1 > 300 then 0
            else random e (randomCalls s + 2) * 200 + 1)"
proof -
  define s1 where "s1 = s\<lparr>loading := True, results := Some d,
                 windSeriesRef := (case wind_series d of None \<Rightarrow> [] | Some ws \<Rightarrow> ws),
                 canvasRef := Some (resizeCanvas e c),
                 particleArray := seedParticles (random e) (getBounds m) (randomCalls s) 200,
                 randomCalls := randomCalls s + 3 * 200,
                 drawClosures := drawClosures s @ [False]\<rparr>"
  have a: "mapRef s1 = Some m" "canvasRef s1 = Some (resizeCanvas e c)" "windSeriesRef s1 \<noteq> []"
    using assms by (simp_all add: s1_def)
  have sd: "particleArray s1 =
     \<lparr>lon = spawnLon (getBounds m) (random e (randomCalls s)),
      lat = spawnLat (getBounds m) (random e (randomCalls s + 1)),
      age = random e (randomCalls s + 2) * 200\<rparr>
       # seedParticles (random e) (getBounds m) (randomCalls s + 3) (200 - 1)"
    using seedParticles_pos[of 200 "random e" "getBounds m" "randomCalls s"] by (simp add: s1_def)
  have "runSimulation e (FluxReply d) s = (draw False e s1)\<lparr>loading := False\<rparr>"
    unfolding s1_def by (rule runSimulation_2D_eq[OF assms(1-4)])
  then have "particleArray (runSimulation e (FluxReply d) s) = particleArray (draw False e s1)"
    by simp
  then show ?thesis
    unfolding draw_active(1)[OF a] sd by (simp only: drawParticles_hd_age particle.simps)
qed


lemma drawParticles_no_respawn:
  "\<forall>p \<in> set ps. age p + 1 \<le> 300 \<Longrightarrow> snd (snd (drawParticles e m h bl ds k ps)) = k"
proof (induction ps arbitrary: k)
  case Nil
  show ?case by simp
next
  case (Cons p ps)
  have d: "drawParticle e m h bl ds k p =
      (fst (drawParticle e m h bl ds k p), fst (snd (drawParticle e m h bl ds k p)), k)"
    using Cons.prems by (simp add: drawParticle_def Let_def)
  obtain sgs ps' k2 where r: "drawParticles e m h bl ds k ps = (sgs, ps', k2)"
    by (cases "drawParticles e m h bl ds k ps") auto
  from Cons.IH[of k] Cons.prems r have "k2 = k" by simp
  then show ?case using r by (subst drawParticles.simps, subst d) simp
qed

lemma seedParticles_age:
  "unit_rng rnd \<Longrightarrow> \<forall>p \<in> set (seedParticles rnd b k n). age p + 1 \<le> 300"
proof (induction n arbitrary: k)
  case 0
  show ?case by simp
next
  case (Suc n)
  have "rnd (k + 2) < 1" using Suc.prems by (simp add: unit_rng_def)
  then have "rnd (k + 2) * 200 + 1 \<le> 300" by simp
  with Suc show ?case by simp
qed

lemma draw_randomCalls:
  assumes "mapRef s = Some m" "canvasRef s = Some c" "windSeriesRef s \<noteq> []"
  shows "randomCalls (draw False e s) =
           snd (snd (drawParticles e m (frameHeading (currentFrame s))
                       (baseLen (frameSpeed (currentFrame s)))
                       (driftStep (frameSpeed (currentFrame s))) (randomCalls s) (particleArray s)))"
  using assms
  by (simp add: draw_def Let_def clearRect_def requestAnimationFrame_def split: prod.splits)

lemma sample2D_facts:
  "\<not> noCity sample2D" "\<not> show3D sample2D" "mapRef sample2D = Some sampleMap"
  "canvasRef sample2D \<noteq> None" "randomCalls sample2D = 600" "drawClosures sample2D = [False]"
  "age (hd (particleArray sample2D)) = 51"
proof -
  let ?s = "sampleGlobe\<lparr>selectedCity := Some ''Paris''\<rparr>"
  let ?c = "\<lparr>width = 800, height = 600, strokes = []\<rparr>"
  have h: "\<not> noCity ?s" "\<not> show3D ?s" "mapRef ?s = Some sampleMap"
    "canvasRef ?s = Some ?c"
    by (simp_all add: sampleGlobe_def noCity_def)
  define s1 where "s1 = ?s\<lparr>loading := True, results := Some sampleFlux,
                 windSeriesRef := (case wind_series sampleFlux of None \<Rightarrow> [] | Some ws \<Rightarrow> ws),
                 canvasRef := Some (resizeCanvas sampleEnv ?c),
                 particleArray := seedParticles (random sampleEnv) (getBounds sampleMap) (randomCalls ?s) 200,
                 randomCalls := randomCalls ?s + 3 * 200,
                 drawClosures := drawClosures ?s @ [False]\<rparr>"
  have e: "sample2D = (draw False sampleEnv s1)\<lparr>loading := False\<rparr>"
    unfolding sample2D_def s1_def by (rule runSimulation_2D_eq[OF h])
  have a: "mapRef s1 = Some sampleMap" "canvasRef s1 = Some (resizeCanvas sampleEnv ?c)"
    "windSeriesRef s1 \<noteq> []"
    by (simp_all add: s1_def sampleGlobe_def sampleFlux_def)
  have p: "particleArray s1 = seedParticles (random sampleEnv) (getBounds sampleMap) 0 200"
    and k: "randomCalls s1 = 600" and l: "drawClosures s1 = [False]"
    and o: "\<not> noCity s1" "\<not> show3D s1"
    by (simp_all add: s1_def sampleGlobe_def noCity_def)
  show "\<not> noCity sample2D" "\<not> show3D sample2D" "mapRef sample2D = Some sampleMap"
    "drawClosures sample2D = [False]"
    unfolding e using draw_other_fields[of False sampleEnv s1] a o l by (simp_all add: noCity_def)
  show "canvasRef sample2D \<noteq> None"
    unfolding e using draw_active(2)[OF a] by simp
  show "randomCalls sample2D = 600"
    unfolding e using draw_randomCalls[OF a, of sampleEnv]
      drawParticles_no_respawn[OF seedParticles_age[OF sampleEnv_unit]]
    by (simp add: p k)
  have "age (hd (particleArray sample2D)) =
           (if random sampleEnv (randomCalls ?s + 2) * 200 + 1 > 300 then 0
            else random sampleEnv (randomCalls ?s + 2) * 200 + 1)"
    unfolding sample2D_def
    by (rule first_age_after_run[OF h]) (simp add: sampleFlux_def)
  then show "age (hd (particleArray sample2D)) = 51"
    by (simp add: sampleGlobe_def sampleEnv_def)
qed

text \<open>
  A second run with the renderer active does not leave the renderer alone. In 2D the
  first particle, whose age was 51 after the first run, is a different, freshly seeded
  one after the second, and a second \<^verbatim>\<open>draw\<close> loop has been started; in 3D a second
  WebGL renderer has been built.
\<close>

theorem rerun_reseeds_particles:
  "age (hd (particleArray sample2D)) = 51 \<and>
   age (hd (particleArray (runSimulation sampleEnv (FluxReply sampleFlux) sample2D))) = 201 / 151 \<and>
   drawClosures sample2D = [False] \<and>
   drawClosures (runSimulation sampleEnv (FluxReply sampleFlux) sample2D) = [False, False] \<and>
   renderersBuilt (threeStateRef sample3D) = 1 \<and>
   renderersBuilt (threeStateRef (runSimulation sampleEnv (FluxReply sampleFlux) sample3D)) = 2"
proof -
  obtain c where c: "canvasRef sample2D = Some c" using sample2D_facts(4) by blast
  have "age (hd (particleArray (runSimulation sampleEnv (FluxReply sampleFlux) sample2D))) =
           (if random sampleEnv (randomCalls sample2D + 2) * 200 + 1 > 300 then 0
            else random sampleEnv (randomCalls sample2D + 2) * 200 + 1)"
    by (rule first_age_after_run[OF sample2D_facts(1,2,3) c]) (simp add: sampleFlux_def)
  then have 1: "age (hd (particleArray (runSimulation sampleEnv (FluxReply sampleFlux) sample2D))) = 201 / 151"
    by (simp add: sample2D_facts(5) sampleEnv_def)
  have 2: "drawClosures (runSimulation sampleEnv (FluxReply sampleFlux) sample2D) = [False, False]"
    unfolding runSimulation_2D_eq[OF sample2D_facts(1,2,3) c]
    by (simp add: draw_other_fields sample2D_facts(6))
  have s3: "\<not> noCity sample3D" "show3D sample3D"
    "mapRef sample3D = Some (sampleMap\<lparr>layers := insertBefore ''waterway-label'' particlesLayer (layers sampleMap)\<rparr>)"
    "renderersBuilt (threeStateRef sample3D) = 1"
    by (simp_all add: sample3D_eq noCity_def)
  have w3: "getLayer (sampleMap\<lparr>layers := insertBefore ''waterway-label'' particlesLayer (layers sampleMap)\<rparr>)
              ''waterway-label''"
    by (simp add: getLayer_def set_insertBefore sampleMap_def sampleStyle_def)
  have 3: "renderersBuilt (threeStateRef (runSimulation sampleEnv (FluxReply sampleFlux) sample3D)) = 2"
    unfolding runSimulation_3D_eq[OF s3(1,2,3) w3] by (simp add: s3(4))
  show ?thesis using sample2D_facts(6,7) 1 2 3 s3(4) by simp
qed


text \<open>
  C4 (as amended). A re-run of the simulation with a city selected, a map present and a
  reply from the backend replaces the stored wind series and rebuilds the active
  renderer. In 2D (canvas present) \<^verbatim>\<open>init2DArrows\<close> runs again: the particle array is
  200 freshly seeded particles, advanced by the first repaint, and does not depend on
  the particles held before (\<open>ps\<close> is any other previous array); one more \<^verbatim>\<open>draw\<close>
  loop is started. In 3D (the style has the layer the custom layer goes under) the
  custom layer is removed and registered again, with a freshly sampled point cloud and
  a newly built renderer.
\<close>

theorem rerun_rebuilds_renderer:
  assumes "\<not> noCity s" "mapRef s = Some m"
  shows "(\<not> show3D s \<and> canvasRef s \<noteq> None \<longrightarrow>
            windSeriesRef (runSimulation e (FluxReply d) s)
              = (case wind_series d of None \<Rightarrow> [] | Some ws \<Rightarrow> ws) \<and>
            length (particleArray (runSimulation e (FluxReply d) s)) = 200 \<and>
            particleArray (runSimulation e (FluxReply d) s)
              = particleArray (runSimulation e (FluxReply d) (s\<lparr>particleArray := ps\<rparr>)) \<and>
            drawClosures (runSimulation e (FluxReply d) s) = drawClosures s @ [False]) \<and>
         (show3D s \<and> getLayer m ''waterway-label'' \<longrightarrow>
            windSeriesRef (runSimulation e (FluxReply d) s)
              = (case wind_series d of None \<Rightarrow> [] | Some ws \<Rightarrow> ws) \<and>
            threeStateRef (runSimulation e (FluxReply d) s)
              = \<lparr>points = Some (samplePoints e (getBounds m) (randomCalls s) 1800),
                 renderersBuilt = renderersBuilt (threeStateRef s) + 1\<rparr> \<and>
            map_option layers (mapRef (runSimulation e (FluxReply d) s))
              = Some (insertBefore ''waterway-label'' particlesLayer
                        (filter (\<lambda>l. lid l \<noteq> ''flux-3d-particles'') (layers m))))"
proof (intro conjI impI)
  assume a: "\<not> show3D s \<and> canvasRef s \<noteq> None"
  then obtain c where c: "canvasRef s = Some c" and n: "\<not> show3D s" by blast
  let ?t = "s\<lparr>particleArray := ps\<rparr>"
  have t: "\<not> noCity ?t" "\<not> show3D ?t" "mapRef ?t = Some m" "canvasRef ?t = Some c"
    using assms n c by (simp_all add: noCity_def)
  note r = runSimulation_2D_eq[OF assms(1) n assms(2) c, of e d]
  note r' = runSimulation_2D_eq[OF t, of e d]
  show "windSeriesRef (runSimulation e (FluxReply d) s)
              = (case wind_series d of None \<Rightarrow> [] | Some ws \<Rightarrow> ws)"
    unfolding r by (simp add: draw_other_fields)
  show "length (particleArray (runSimulation e (FluxReply d) s)) = 200"
    unfolding r by (simp add: draw_length length_seedParticles)
  show "drawClosures (runSimulation e (FluxReply d) s) = drawClosures s @ [False]"
    unfolding r by (simp add: draw_other_fields)
  show "particleArray (runSimulation e (FluxReply d) s)
              = particleArray (runSimulation e (FluxReply d) (s\<lparr>particleArray := ps\<rparr>))"
    unfolding r r' by simp
next
  assume a: "show3D s \<and> getLayer m ''waterway-label''"
  then have h: "show3D s" and w: "getLayer m ''waterway-label''" by blast+
  note r = runSimulation_3D_eq[OF assms(1) h assms(2) w, of e d]
  show "windSeriesRef (runSimulation e (FluxReply d) s)
              = (case wind_series d of None \<Rightarrow> [] | Some ws \<Rightarrow> ws)"
    unfolding r by simp
  show "threeStateRef (runSimulation e (FluxReply d) s)
              = \<lparr>points = Some (samplePoints e (getBounds m) (randomCalls s) 1800),
                 renderersBuilt = renderersBuilt (threeStateRef s) + 1\<rparr>"
    unfolding r by simp
  show "map_option layers (mapRef (runSimulation e (FluxReply d) s))
              = Some (insertBefore ''waterway-label'' particlesLayer
                        (filter (\<lambda>l. lid l \<noteq> ''flux-3d-particles'') (layers m)))"
    unfolding r by simp
qed

theorem rerun_rebuilds_renderer_witness:
  "\<not> noCity sample2D \<and> mapRef sample2D = Some sampleMap \<and>
   \<not> show3D sample2D \<and> canvasRef sample2D \<noteq> None \<and>
   windSeriesRef (runSimulation sampleEnv (FluxReply sampleFlux) sample2D)
     = [\<lparr>direction_deg = 90, speed_ms = Some 4\<rparr>] \<and>
   length (particleArray (runSimulation sampleEnv (FluxReply sampleFlux) sample2D)) = 200 \<and>
   particleArray (runSimulation sampleEnv (FluxReply sampleFlux) sample2D)
     = particleArray (runSimulation sampleEnv (FluxReply sampleFlux) (sample2D\<lparr>particleArray := []\<rparr>)) \<and>
   drawClosures (runSimulation sampleEnv (FluxReply sampleFlux) sample2D) = [False, False]"
proof -
  have c: "\<not> show3D sample2D \<and> canvasRef sample2D \<noteq> None"
    using sample2D_facts(2,4) by blast
  note t = rerun_rebuilds_renderer[OF sample2D_facts(1) sample2D_facts(3), of sampleEnv sampleFlux "[]"]
  from t c have w: "windSeriesRef (runSimulation sampleEnv (FluxReply sampleFlux) sample2D)
              = (case wind_series sampleFlux of None \<Rightarrow> [] | Some ws \<Rightarrow> ws)"
    and l: "length (particleArray (runSimulation sampleEnv (FluxReply sampleFlux) sample2D)) = 200"
    and p: "particleArray (runSimulation sampleEnv (FluxReply sampleFlux) sample2D)
     = particleArray (runSimulation sampleEnv (FluxReply sampleFlux) (sample2D\<lparr>particleArray := []\<rparr>))"
    and d: "drawClosures (runSimulation sampleEnv (FluxReply sampleFlux) sample2D) = drawClosures sample2D @ [False]"
    by blast+
  from w have w': "windSeriesRef (runSimulation sampleEnv (FluxReply sampleFlux) sample2D)
     = [\<lparr>direction_deg = 90, speed_ms = Some 4\<rparr>]"
    by (simp add: sampleFlux_def)
  from d have d': "drawClosures (runSimulation sampleEnv (FluxReply sampleFlux) sample2D) = [False, False]"
    by (simp add: sample2D_facts(6))
  show ?thesis
    using sample2D_facts(1,2,3,4) w' l p d' by (intro conjI)
qed

end
